theory Spec2Isabelle
  imports Complex_Main "HOL-Library.AList"
begin

section \<open>Python values, exceptions and observable events\<close>

text \<open>
  The wrappers move records of the terminal API around as Python dictionaries. A value is
  one of the Python objects that occur in them. A dictionary and a named tuple both keep
  their entries in insertion order, so both carry an association list; \<open>data[k] = v\<close> is
  \<open>AList.update\<close> (replace in place, or append) and \<open>k in data\<close>, \<open>data[k]\<close> are
  \<open>map_of\<close>. Floats are modelled by real numbers: the code only stores, compares and
  divides them by 1000.
\<close>

datatype pyobj =
    PNone
  | PBool bool
  | PInt int
  | PFloat real
  | PStr string
  | PDatetime real
  | PDict "(string \<times> pyobj) list"
  | PNamedTuple "(string \<times> pyobj) list"

type_synonym pydict = "(string \<times> pyobj) list"

text \<open>
  The exceptions of \<open>exceptions.py\<close> carry an optional error code (\<open>MT5Error.error_code\<close>);
  \<open>ValueError\<close> and \<open>TypeError\<close> are Python's own.
\<close>

datatype error =
    MT5ConnectionError "int option"
  | MT5OrderError "int option"
  | MT5ValidationError
  | ValueError
  | TypeError

text \<open>Truth value of an object, as \<open>if x\<close> and \<open>x and y\<close> test it.\<close>

fun truthy :: "pyobj \<Rightarrow> bool" where
  "truthy PNone = False"
| "truthy (PBool b) = b"
| "truthy (PInt i) = (i \<noteq> 0)"
| "truthy (PFloat r) = (r \<noteq> 0)"
| "truthy (PStr s) = (s \<noteq> [])"
| "truthy (PDatetime t) = True"
| "truthy (PDict d) = (d \<noteq> [])"
| "truthy (PNamedTuple d) = (d \<noteq> [])"

text \<open>
  The number an object stands for in \<open>x > 0\<close> and \<open>x / 1000.0\<close>; comparing any other
  object with an integer raises \<open>TypeError\<close>.
\<close>

fun num_of :: "pyobj \<Rightarrow> real option" where
  "num_of (PBool b) = Some (if b then 1 else 0)"
| "num_of (PInt i) = Some (real_of_int i)"
| "num_of (PFloat r) = Some r"
| "num_of _ = None"

definition endswith :: "string \<Rightarrow> string \<Rightarrow> bool" where
  "endswith s suf \<longleftrightarrow> length suf \<le> length s \<and> drop (length s - length suf) s = suf"

section \<open>converters.py\<close>

text \<open>
  \<open>to_dict\<close>: \<open>None\<close> stays \<open>None\<close>, an object with \<open>_asdict\<close> (a named tuple) gives its
  fields, a dictionary is returned as it is, and \<open>dict(obj)\<close> raises \<open>TypeError\<close> on every
  other object of the model, which \<open>to_dict\<close> turns into \<open>None\<close>.
\<close>

fun to_dict :: "pyobj \<Rightarrow> pydict option" where
  "to_dict PNone = None"
| "to_dict (PNamedTuple fs) = Some fs"
| "to_dict (PDict d) = Some d"
| "to_dict _ = None"

text \<open>
  The timestamp handed to \<open>datetime.fromtimestamp\<close>: milliseconds (a field named
  \<open>..._msc\<close>, or a value above \<open>10000000000\<close>) are divided by 1000.
\<close>

definition field_stamp :: "string \<Rightarrow> real \<Rightarrow> real" where
  "field_stamp field ts =
     (if endswith field ''_msc'' \<or> ts > 10000000000 then ts / 1000 else ts)"

text \<open>
  The loop of \<open>add_datetime_fields\<close> over \<open>time_fields\<close>. The guard is
  \<open>field in data and data[field] and data[field] > 0\<close>, evaluated left to right: a missing
  or false value skips the field, a true value that is not a number raises \<open>TypeError\<close> at
  the comparison. \<open>PDatetime t\<close> is the UTC datetime of timestamp \<open>t\<close>; the conversion
  itself is taken to succeed.
\<close>

fun add_fields_loop :: "pydict \<Rightarrow> string list \<Rightarrow> string \<Rightarrow> error + pydict" where
  "add_fields_loop data [] suffix = Inr data"
| "add_fields_loop data (field # rest) suffix =
     (case map_of data field of
        None \<Rightarrow> add_fields_loop data rest suffix
      | Some v \<Rightarrow>
          if \<not> truthy v then add_fields_loop data rest suffix
          else (case num_of v of
                  None \<Rightarrow> Inl TypeError
                | Some ts \<Rightarrow>
                    if ts > 0
                    then add_fields_loop
                           (AList.update (field @ suffix) (PDatetime (field_stamp field ts)) data)
                           rest suffix
                    else add_fields_loop data rest suffix))"

definition add_datetime_fields ::
  "pydict option \<Rightarrow> string list \<Rightarrow> string \<Rightarrow> error + pydict option" where
  "add_datetime_fields data time_fields suffix =
     (case data of
        None \<Rightarrow> Inr None
      | Some d \<Rightarrow>
          (case add_fields_loop d time_fields suffix of
             Inl e \<Rightarrow> Inl e
           | Inr d' \<Rightarrow> Inr (Some d')))"

text \<open>
  A listed field qualifies for a companion key when it is present with a true value that
  is a number greater than 0; \<open>companion_value\<close> is the datetime stored for it.
\<close>

definition qualifies :: "pydict \<Rightarrow> string \<Rightarrow> bool" where
  "qualifies data field =
     (case map_of data field of
        None \<Rightarrow> False
      | Some v \<Rightarrow> truthy v \<and> (case num_of v of None \<Rightarrow> False | Some ts \<Rightarrow> ts > 0))"

definition companion_value :: "pydict \<Rightarrow> string \<Rightarrow> pyobj" where
  "companion_value data field =
     (case map_of data field of
        None \<Rightarrow> PNone
      | Some v \<Rightarrow> (case num_of v of None \<Rightarrow> PNone | Some ts \<Rightarrow> PDatetime (field_stamp field ts)))"

text \<open>The values under the listed fields are numbers wherever the guard reaches the comparison.\<close>

definition numeric_fields :: "pydict \<Rightarrow> string list \<Rightarrow> bool" where
  "numeric_fields data time_fields =
     list_all (\<lambda>f. case map_of data f of
                      None \<Rightarrow> True
                    | Some v \<Rightarrow> \<not> truthy v \<or> num_of v \<noteq> None) time_fields"

text \<open>No listed field is itself the companion key of a listed field.\<close>

definition no_listed_companion :: "string list \<Rightarrow> string \<Rightarrow> bool" where
  "no_listed_companion time_fields suffix =
     list_all (\<lambda>f. f @ suffix \<notin> set time_fields) time_fields"

section \<open>core/connection.py\<close>

text \<open>
  What the wrappers do to the outside world, in the order they do it: a call of a function
  of the terminal API (its name, positional arguments and keyword arguments), the start of
  the terminal process, a sleep, and a log record of a given level.
\<close>

datatype event =
    ExtCall string "pyobj list" pydict
  | Spawn string
  | Sleep real
  | LogInfo
  | LogWarning
  | LogError

text \<open>
  \<open>MT5Connection\<close> holds three attributes. The attribute \<open>login\<close> has the name of the method
  \<open>login\<close>; the attributes carry the suffix \<open>_attr\<close> here and the methods keep their names.
\<close>

record connection =
  connected_attr :: bool
  login_attr :: "int option"
  server_attr :: "string option"

definition new_connection :: connection where
  "new_connection = \<lparr>connected_attr = False, login_attr = None, server_attr = None\<rparr>"

text \<open>The arguments of \<open>initialize\<close>.\<close>

record init_params =
  p_path :: "string option"
  p_login :: "int option"
  p_password :: "string option"
  p_server :: "string option"
  p_timeout :: int
  p_portable :: bool
  p_retry :: int
  p_retry_delay :: real

text \<open>
  What one attempt meets: \<open>mt5.initialize\<close> returns a true value, returns a false value
  with \<open>mt5.last_error()[0]\<close> being the given code, or an exception leaves the \<open>try\<close> block.
  \<open>popen_ok\<close> tells whether \<open>subprocess.Popen\<close> starts the terminal or raises.
\<close>

datatype init_outcome = InitSucceeded | InitFailed int | InitRaised

record init_env =
  outcome_at :: "nat \<Rightarrow> init_outcome"
  popen_ok :: bool

text \<open>The call of \<open>mt5.initialize\<close> that the argument combination selects (lines 52 to 66).\<close>

definition initialize_call :: "init_params \<Rightarrow> event" where
  "initialize_call p =
     (case p_login p of
        None \<Rightarrow>
          (case p_path p of
             None \<Rightarrow> ExtCall ''initialize'' [] []
           | Some path \<Rightarrow> ExtCall ''initialize'' [PStr path] [])
      | Some lg \<Rightarrow>
          (let kwargs = [(''login'', PInt lg), (''timeout'', PInt (p_timeout p)),
                         (''portable'', PBool (p_portable p))];
               kwargs = (case p_password p of
                           None \<Rightarrow> kwargs
                         | Some pw \<Rightarrow> AList.update ''password'' (PStr pw) kwargs);
               kwargs = (case p_server p of
                           None \<Rightarrow> kwargs
                         | Some sv \<Rightarrow> AList.update ''server'' (PStr sv) kwargs)
           in (case p_path p of
                 None \<Rightarrow> ExtCall ''initialize'' [] kwargs
               | Some path \<Rightarrow> ExtCall ''initialize'' [PStr path] kwargs)))"

text \<open>\<open>path\<close> as a condition: \<open>None\<close> and the empty string are false.\<close>

definition path_given :: "string option \<Rightarrow> bool" where
  "path_given path = (case path of None \<Rightarrow> False | Some s \<Rightarrow> s \<noteq> [])"

definition prepend :: "event list \<Rightarrow> 'a \<times> 'b \<times> event list \<Rightarrow> 'a \<times> 'b \<times> event list" where
  "prepend evs r = (case r of (x, c, tr) \<Rightarrow> (x, c, evs @ tr))"

text \<open>
  The loop \<open>for attempt in range(retry)\<close>, with \<open>attempt\<close> the current index and the
  second number the iterations still to run. A failed attempt that the \<open>except\<close> branch or
  the \<open>else\<close> branch handles clears the flag and sleeps \<open>retry_delay\<close> when
  \<open>attempt < retry - 1\<close>. On the first attempt, error code \<open>-10001\<close> with a path starts the
  terminal, sleeps 5 seconds and goes on with \<open>continue\<close>, past the code that clears the
  flag; when \<open>Popen\<close> raises, the attempt is handled like any failed one. After the loop
  \<open>MT5ConnectionError\<close> is raised; its error code is \<open>None\<close> on both \<open>raise\<close> lines, since
  \<open>last_error\<close> is a tuple or a string and never an \<open>int\<close>.
\<close>

fun initialize_loop ::
  "init_env \<Rightarrow> init_params \<Rightarrow> nat \<Rightarrow> nat \<Rightarrow> connection \<Rightarrow>
   (error + bool) \<times> connection \<times> event list" where
  "initialize_loop env p attempt 0 c = (Inl (MT5ConnectionError None), c, [])"
| "initialize_loop env p attempt (Suc n) c =
     (let failed = (\<lambda>evs.
            prepend (evs @ (if int attempt < p_retry p - 1 then [Sleep (p_retry_delay p)] else []))
              (initialize_loop env p (Suc attempt) n (c\<lparr>connected_attr := False\<rparr>)))
      in case outcome_at env attempt of
           InitSucceeded \<Rightarrow>
             (Inr True,
              c\<lparr>connected_attr := True, login_attr := p_login p, server_attr := p_server p\<rparr>,
              [initialize_call p, LogInfo])
         | InitRaised \<Rightarrow> failed [initialize_call p, LogWarning]
         | InitFailed code \<Rightarrow>
             if code = - 10001 \<and> path_given (p_path p) \<and> attempt = 0
             then (if popen_ok env
                   then prepend [initialize_call p, LogInfo, Spawn (the (p_path p)), LogInfo, Sleep 5]
                          (initialize_loop env p (Suc attempt) n c)
                   else failed [initialize_call p, LogInfo, Spawn (the (p_path p)), LogWarning,
                                LogWarning])
             else failed [initialize_call p, LogWarning])"

definition initialize ::
  "init_env \<Rightarrow> init_params \<Rightarrow> connection \<Rightarrow> (error + bool) \<times> connection \<times> event list" where
  "initialize env p c = initialize_loop env p 0 (nat (p_retry p)) c"

text \<open>\<open>shutdown\<close>, \<open>is_connected\<close>, \<open>get_terminal_info\<close>, \<open>get_version\<close> and \<open>login\<close>.\<close>

record terminal_env =
  terminal_info :: "pydict option"
  version :: pyobj
  login_outcome :: "bool option"

definition shutdown :: "connection \<Rightarrow> connection \<times> event list" where
  "shutdown c =
     (if connected_attr c
      then (c\<lparr>connected_attr := False\<rparr>, [ExtCall ''shutdown'' [] [], LogInfo])
      else (c, []))"

definition is_connected :: "connection \<Rightarrow> bool" where
  "is_connected c = connected_attr c"

definition get_terminal_info ::
  "terminal_env \<Rightarrow> connection \<Rightarrow> (error + pydict option) \<times> event list" where
  "get_terminal_info env c =
     (if \<not> connected_attr c then (Inl (MT5ConnectionError None), [])
      else (case terminal_info env of
              Some info \<Rightarrow> (Inr (Some info), [ExtCall ''terminal_info'' [] []])
            | None \<Rightarrow> (Inr None, [ExtCall ''terminal_info'' [] []])))"

definition get_version :: "terminal_env \<Rightarrow> connection \<Rightarrow> (error + pyobj) \<times> event list" where
  "get_version env c =
     (if \<not> connected_attr c then (Inl (MT5ConnectionError None), [])
      else (Inr (version env), [ExtCall ''version'' [] []]))"

text \<open>
  The body of the method \<open>login\<close>. \<open>login_outcome\<close> is what \<open>mt5.login\<close> does: a true or a
  false result, or \<open>None\<close> for an exception, which the method logs and turns into \<open>False\<close>.
\<close>

definition login ::
  "terminal_env \<Rightarrow> connection \<Rightarrow> int \<Rightarrow> string option \<Rightarrow> string option \<Rightarrow> int \<Rightarrow>
   (error + bool) \<times> connection \<times> event list" where
  "login env c lg password sv timeout =
     (if \<not> connected_attr c then (Inl (MT5ConnectionError None), c, [])
      else
        (let kwargs = [(''login'', PInt lg), (''timeout'', PInt timeout)];
             kwargs = (case password of
                         None \<Rightarrow> kwargs
                       | Some pw \<Rightarrow> AList.update ''password'' (PStr pw) kwargs);
             kwargs = (case sv of
                         None \<Rightarrow> kwargs
                       | Some s \<Rightarrow> AList.update ''server'' (PStr s) kwargs)
         in (case login_outcome env of
               Some True \<Rightarrow>
                 (Inr True, c\<lparr>login_attr := Some lg, server_attr := sv\<rparr>,
                  [ExtCall ''login'' [] kwargs, LogInfo])
             | Some False \<Rightarrow>
                 (Inr False, c,
                  [ExtCall ''login'' [] kwargs, ExtCall ''last_error'' [] [], LogError])
             | None \<Rightarrow> (Inr False, c, [ExtCall ''login'' [] kwargs, LogError]))))"

text \<open>Reading a trace: the calls of \<open>mt5.initialize\<close> and the sleeps.\<close>

fun is_init_call :: "event \<Rightarrow> bool" where
  "is_init_call (ExtCall name args kwargs) = (name = ''initialize'')"
| "is_init_call _ = False"

fun is_sleep :: "event \<Rightarrow> bool" where
  "is_sleep (Sleep d) = True"
| "is_sleep _ = False"

definition init_calls :: "event list \<Rightarrow> nat" where
  "init_calls tr = length (filter is_init_call tr)"

fun sleeps :: "event list \<Rightarrow> real list" where
  "sleeps [] = []"
| "sleeps (Sleep d # tr) = d # sleeps tr"
| "sleeps (e # tr) = sleeps tr"

text \<open>
  A trace alternates when its calls of \<open>mt5.initialize\<close> and its sleeps come in turn,
  starting with a call: exactly one sleep lies between two consecutive calls.
\<close>

fun alternates :: "bool \<Rightarrow> event list \<Rightarrow> bool" where
  "alternates expect_call [] = True"
| "alternates expect_call (e # tr) =
     (if is_init_call e then expect_call \<and> alternates False tr
      else if is_sleep e then \<not> expect_call \<and> alternates True tr
      else alternates expect_call tr)"

text \<open>The first attempt takes the branch that starts the terminal and succeeds in starting it.\<close>

definition spawned :: "init_env \<Rightarrow> init_params \<Rightarrow> bool" where
  "spawned env p \<longleftrightarrow>
     outcome_at env 0 = InitFailed (- 10001) \<and> path_given (p_path p) \<and> popen_ok env"

text \<open>The three parts of what a method returns: result, connection afterwards, trace.\<close>

definition res_of :: "'a \<times> 'b \<times> 'c \<Rightarrow> 'a" where
  "res_of r = fst r"

definition conn_of :: "'a \<times> 'b \<times> 'c \<Rightarrow> 'b" where
  "conn_of r = fst (snd r)"

definition trace_of :: "'a \<times> 'b \<times> 'c \<Rightarrow> 'c" where
  "trace_of r = snd (snd r)"

text \<open>
  The first successful attempt among the \<open>n\<close> attempts from index \<open>a\<close> on, and the number of
  attempts made up to and including it (all \<open>n\<close> when none succeeds).
\<close>

fun first_success :: "init_env \<Rightarrow> nat \<Rightarrow> nat \<Rightarrow> nat option" where
  "first_success env a 0 = None"
| "first_success env a (Suc n) =
     (if outcome_at env a = InitSucceeded then Some a else first_success env (Suc a) n)"

definition attempts_made :: "init_env \<Rightarrow> nat \<Rightarrow> nat \<Rightarrow> nat" where
  "attempts_made env a n = (case first_success env a n of Some i \<Rightarrow> Suc (i - a) | None \<Rightarrow> n)"

text \<open>What a failed attempt that is not followed by \<open>continue\<close> leaves in the trace before its sleep.\<close>

definition failed_prefix :: "init_env \<Rightarrow> init_params \<Rightarrow> nat \<Rightarrow> event list" where
  "failed_prefix env p a =
     (case outcome_at env a of
        InitSucceeded \<Rightarrow> []
      | InitRaised \<Rightarrow> [initialize_call p, LogWarning]
      | InitFailed code \<Rightarrow>
          if code = - 10001 \<and> path_given (p_path p) \<and> a = 0
          then [initialize_call p, LogInfo, Spawn (the (p_path p)), LogWarning, LogWarning]
          else [initialize_call p, LogWarning])"

text \<open>
  A terminal that is not running at the first attempt (error \<open>-10001\<close>, started from the
  path), fails once more and answers at the third attempt, with \<open>retry = 3\<close> and
  \<open>retry_delay = 2\<close>: three calls, sleeps of 5 and 2 seconds, result \<open>True\<close>.
\<close>

definition example_env :: init_env where
  "example_env =
     \<lparr>outcome_at = (\<lambda>i. if i = 0 then InitFailed (- 10001)
                         else if i = 1 then InitFailed (- 10005) else InitSucceeded),
      popen_ok = True\<rparr>"

definition example_params :: init_params where
  "example_params =
     \<lparr>p_path = Some ''terminal64.exe'', p_login = Some 12345678, p_password = Some ''pw'',
      p_server = Some ''Demo'', p_timeout = 60000, p_portable = False,
      p_retry = 3, p_retry_delay = 2\<rparr>"


text \<open>
  A terminal that never answers (error \<open>-10001\<close> at every attempt, the process starting
  each time it is asked to), with a single attempt allowed.
\<close>

definition closed_terminal_env :: init_env where
  "closed_terminal_env = \<lparr>outcome_at = (\<lambda>i. InitFailed (- 10001)), popen_ok = True\<rparr>"

definition single_try_params :: init_params where
  "single_try_params = example_params\<lparr>p_retry := 1\<rparr>"

definition example_terminal :: terminal_env where
  "example_terminal =
     \<lparr>terminal_info = Some [(''connected'', PBool True)],
      version = PStr ''5.0.37'',
      login_outcome = Some True\<rparr>"

section \<open>manager/account\_manager.py\<close>

text \<open>
  \<open>MT5AccountManager\<close>: the table \<open>accounts\<close> from alias to client, in insertion order, and
  the alias of the current account. A client (\<open>EMT5\<close>) is represented by the state of its
  connection. Every method runs its whole body inside \<open>with self._lock\<close>, so a method is
  one step from a manager state to the next.
\<close>

record manager =
  accounts :: "(string \<times> connection) list"
  current_account :: "string option"

definition new_manager :: manager where
  "new_manager = \<lparr>accounts = [], current_account = None\<rparr>"

definition state_of :: "'a \<times> 'b \<times> 'c \<Rightarrow> 'b" where
  "state_of r = fst (snd r)"

text \<open>
  \<open>EMT5.initialize\<close> hands \<open>path\<close>, \<open>login\<close>, \<open>password\<close>, \<open>server\<close> and its own defaults for
  \<open>timeout\<close> and \<open>portable\<close> to \<open>MT5Connection.initialize\<close>, which keeps its defaults
  \<open>retry = 3\<close> and \<open>retry_delay = 2.0\<close>.
\<close>

definition emt5_initialize ::
  "init_env \<Rightarrow> string option \<Rightarrow> int \<Rightarrow> string \<Rightarrow> string \<Rightarrow> connection \<Rightarrow>
   (error + bool) \<times> connection \<times> event list" where
  "emt5_initialize env path lg password sv c =
     initialize env
       \<lparr>p_path = path, p_login = Some lg, p_password = Some password, p_server = Some sv,
        p_timeout = 60000, p_portable = False, p_retry = 3, p_retry_delay = 2\<rparr> c"

text \<open>The tail of \<open>add_account\<close>: store the client, select it when nothing is selected.\<close>

definition store_account :: "manager \<Rightarrow> string \<Rightarrow> connection \<Rightarrow> manager" where
  "store_account m name client =
     m\<lparr>accounts := AList.update name client (accounts m),
       current_account := (case current_account m of
                             None \<Rightarrow> Some name
                           | Some cur \<Rightarrow> Some cur)\<rparr>"

definition add_account ::
  "init_env \<Rightarrow> manager \<Rightarrow> string \<Rightarrow> int \<Rightarrow> string \<Rightarrow> string \<Rightarrow> string option \<Rightarrow> bool \<Rightarrow>
   bool \<times> manager \<times> event list" where
  "add_account env m name lg password sv path auto_connect =
     (if map_of (accounts m) name \<noteq> None then (False, m, [LogWarning])
      else if auto_connect
      then (case emt5_initialize env path lg password sv new_connection of
              (Inr True, client, tr) \<Rightarrow> (True, store_account m name client, tr @ [LogInfo])
            | (Inr False, client, tr) \<Rightarrow> (False, m, tr @ [LogError])
            | (Inl e, client, tr) \<Rightarrow> (False, m, tr @ [LogError]))
      else (True, store_account m name new_connection, [LogInfo]))"

text \<open>\<open>next(iter(self.accounts), None)\<close>: the first alias of the table, if any.\<close>

definition first_key :: "(string \<times> connection) list \<Rightarrow> string option" where
  "first_key al = (case al of [] \<Rightarrow> None | (k, v) # rest \<Rightarrow> Some k)"

definition remove_account :: "manager \<Rightarrow> string \<Rightarrow> bool \<times> manager \<times> event list" where
  "remove_account m name =
     (case map_of (accounts m) name of
        None \<Rightarrow> (False, m, [LogError])
      | Some client \<Rightarrow>
          (let remaining = AList.delete name (accounts m)
           in (True,
               m\<lparr>accounts := remaining,
                 current_account := (if current_account m = Some name then first_key remaining
                                     else current_account m)\<rparr>,
               snd (shutdown client) @ [LogInfo])))"

definition switch_account :: "manager \<Rightarrow> string \<Rightarrow> bool \<times> manager \<times> event list" where
  "switch_account m name =
     (if map_of (accounts m) name = None then (False, m, [LogError])
      else (True, m\<lparr>current_account := Some name\<rparr>, [LogInfo]))"

text \<open>The states a fresh manager reaches by \<open>add_account\<close>, \<open>remove_account\<close>, \<open>switch_account\<close>.\<close>

inductive reachable :: "manager \<Rightarrow> bool" where
  fresh: "reachable new_manager"
| added: "reachable m \<Longrightarrow>
          reachable (state_of (add_account env m name lg password sv path auto_connect))"
| removed: "reachable m \<Longrightarrow> reachable (state_of (remove_account m name))"
| switched: "reachable m \<Longrightarrow> reachable (state_of (switch_account m name))"

definition manager_invariant :: "manager \<Rightarrow> bool" where
  "manager_invariant m \<longleftrightarrow>
     (current_account m = None \<longleftrightarrow> accounts m = []) \<and>
     (case current_account m of
        None \<Rightarrow> True
      | Some cur \<Rightarrow> cur \<in> fst ` set (accounts m))"

text \<open>
  A manager after \<open>add_account("a", ..., auto_connect=False)\<close>,
  \<open>add_account("b", ..., auto_connect=False)\<close> and \<open>remove_account("a")\<close>.
\<close>

definition manager_ab :: manager where
  "manager_ab =
     state_of (add_account example_env
       (state_of (add_account example_env new_manager ''a'' 1 ''pw'' ''Demo'' None False))
       ''b'' 2 ''pw'' ''Demo'' None False)"

definition manager_b :: manager where
  "manager_b = state_of (remove_account manager_ab ''a'')"

section \<open>info/account.py\<close>

text \<open>
  \<open>mt5.account_info()\<close> returns a named tuple, given by its fields, or \<open>None\<close>.
  \<open>get_account_info\<close> returns \<open>account_info._asdict()\<close>; it calls neither \<open>to_dict\<close> nor
  \<open>add_datetime_fields\<close>.
\<close>

record account_env =
  account_info :: "pydict option"

definition get_account_info :: "account_env \<Rightarrow> connection \<Rightarrow> pydict option \<times> event list" where
  "get_account_info env c =
     (if \<not> is_connected c then (None, [LogError])
      else (case account_info env of
              Some info \<Rightarrow> (Some info, [ExtCall ''account_info'' [] []])
            | None \<Rightarrow> (None, [ExtCall ''account_info'' [] []])))"

fun is_ext_call :: "event \<Rightarrow> bool" where
  "is_ext_call (ExtCall name args kwargs) = True"
| "is_ext_call _ = False"

text \<open>An account record that carries an integer timestamp, and a connected connection.\<close>

definition stamped_account :: account_env where
  "stamped_account =
     \<lparr>account_info = Some [(''login'', PInt 12345678), (''time'', PInt 1704067200)]\<rparr>"

definition connected_connection :: connection where
  "connected_connection = \<lparr>connected_attr = True, login_attr = None, server_attr = None\<rparr>"

section \<open>trade/executor.py\<close>

text \<open>
  An external call inside a \<open>try\<close> block either returns a value or raises.
  \<open>order_send\<close> returns an object (a named tuple of the result, or \<open>None\<close>);
  \<open>last_error_code\<close> is \<open>mt5.last_error()[0]\<close>.
\<close>

datatype 'a ext = Returned 'a | Raised

record order_env =
  order_send :: "pyobj \<Rightarrow> pyobj ext"
  last_error_code :: int

text \<open>The docstring of \<open>send\<close> gives the value: \<open>10009: TRADE_RETCODE_DONE\<close>.\<close>

definition TRADE_RETCODE_DONE :: int where
  "TRADE_RETCODE_DONE = 10009"

text \<open>\<open>isinstance(request, dict)\<close>.\<close>

fun is_dict :: "pyobj \<Rightarrow> bool" where
  "is_dict (PDict d) = True"
| "is_dict _ = False"

text \<open>\<open>obj.name\<close>: a field of a named tuple; on any other object of the model \<open>AttributeError\<close>.\<close>

fun attribute :: "pyobj \<Rightarrow> string \<Rightarrow> pyobj option" where
  "attribute (PNamedTuple fs) name = map_of fs name"
| "attribute _ name = None"

text \<open>\<open>x != n\<close> for an integer \<open>n\<close>: numbers compare by value, every other object differs.\<close>

definition differs_from :: "pyobj \<Rightarrow> int \<Rightarrow> bool" where
  "differs_from x n \<longleftrightarrow> num_of x \<noteq> Some (real_of_int n)"

text \<open>
  The \<open>require_connection\<close> decorator: \<open>conn\<close> is the \<open>connection\<close> attribute of the object
  (\<open>None\<close> when it is missing); without a connected connection the wrapped method is not
  run and \<open>None\<close> is returned after an error is logged.
\<close>

definition require_connection ::
  "connection option \<Rightarrow> (error + 'a option) \<times> event list \<Rightarrow> (error + 'a option) \<times> event list" where
  "require_connection conn body =
     (case conn of
        None \<Rightarrow> (Inr None, [LogError])
      | Some c \<Rightarrow> if \<not> is_connected c then (Inr None, [LogError]) else body)"

text \<open>The nested \<open>request\<close> of the result is replaced by its own dictionary.\<close>

definition convert_nested_request :: "pydict \<Rightarrow> pydict" where
  "convert_nested_request d =
     (case map_of d ''request'' of
        Some (PNamedTuple r) \<Rightarrow> AList.update ''request'' (PDict r) d
      | _ \<Rightarrow> d)"

definition send_time_fields :: "string list" where
  "send_time_fields = [''time'', ''time_setup'', ''time_expiration'', ''time_done'']"

text \<open>
  The body of \<open>send\<close>. Every exception inside the \<open>try\<close> block other than \<open>MT5OrderError\<close>
  (a raising \<open>order_send\<close>, a missing attribute, a \<open>TypeError\<close> of the conversion) becomes
  \<open>MT5OrderError\<close> without an error code.
\<close>

definition send_body :: "order_env \<Rightarrow> pyobj \<Rightarrow> (error + pydict option) \<times> event list" where
  "send_body env request =
     (if \<not> is_dict request then (Inl MT5ValidationError, [])
      else
        (let call = ExtCall ''order_send'' [request] []
         in case order_send env request of
              Raised \<Rightarrow> (Inl (MT5OrderError None), [call])
            | Returned PNone \<Rightarrow>
                (Inl (MT5OrderError (Some (last_error_code env))),
                 [call, ExtCall ''last_error'' [] []])
            | Returned result \<Rightarrow>
                (case attribute result ''retcode'' of
                   None \<Rightarrow> (Inl (MT5OrderError None), [call])
                 | Some retcode \<Rightarrow>
                     if differs_from retcode TRADE_RETCODE_DONE \<and> attribute result ''comment'' = None
                     then (Inl (MT5OrderError None), [call, LogWarning])
                     else
                       (let logs = (if differs_from retcode TRADE_RETCODE_DONE
                                    then [LogWarning, LogWarning] else [])
                        in case to_dict result of
                             None \<Rightarrow> (Inl (MT5OrderError None), call # logs)
                           | Some d \<Rightarrow>
                               (case add_datetime_fields (Some (convert_nested_request d))
                                       send_time_fields ''_dt'' of
                                  Inl e \<Rightarrow> (Inl (MT5OrderError None), call # logs)
                                | Inr result_dict \<Rightarrow> (Inr result_dict, call # logs))))))"

definition send ::
  "order_env \<Rightarrow> connection option \<Rightarrow> pyobj \<Rightarrow> (error + pydict option) \<times> event list" where
  "send env conn request = require_connection conn (send_body env request)"

text \<open>
  A result record as \<open>order_send\<close> returns it: it has the attribute \<open>retcode\<close>, it has the
  attribute \<open>comment\<close> when the return code is not \<open>TRADE_RETCODE_DONE\<close>, and what it holds
  under the four time fields, if anything, is a number or a false value.
\<close>

definition result_record :: "pydict \<Rightarrow> bool" where
  "result_record fs \<longleftrightarrow>
     (case map_of fs ''retcode'' of
        None \<Rightarrow> False
      | Some retcode \<Rightarrow> differs_from retcode TRADE_RETCODE_DONE \<longrightarrow> map_of fs ''comment'' \<noteq> None) \<and>
     numeric_fields (convert_nested_request fs) send_time_fields"

text \<open>An order request, and a terminal that rejects it with return code 10006.\<close>

definition example_request :: pyobj where
  "example_request = PDict [(''symbol'', PStr ''EURUSD''), (''volume'', PFloat 1)]"

definition example_result :: pydict where
  "example_result =
     [(''retcode'', PInt 10006), (''order'', PInt 0), (''comment'', PStr ''Reject''),
      (''request'', PNamedTuple [(''symbol'', PStr ''EURUSD'')])]"

definition rejecting_env :: order_env where
  "rejecting_env =
     \<lparr>order_send = (\<lambda>r. Returned (PNamedTuple example_result)), last_error_code = 1\<rparr>"

section \<open>trade/calculator.py\<close>

text \<open>
  The constants of the \<open>MetaTrader5\<close> module that the trade modules use. Their numeric
  values are not part of the repository; they are a parameter of the model.
\<close>

record mt5_constants =
  ORDER_TYPE_BUY :: int
  ORDER_TYPE_SELL :: int
  ORDER_TYPE_BUY_LIMIT :: int
  ORDER_TYPE_SELL_LIMIT :: int
  ORDER_TYPE_BUY_STOP :: int
  ORDER_TYPE_SELL_STOP :: int
  TRADE_ACTION_DEAL :: int
  TRADE_ACTION_PENDING :: int
  ORDER_TIME_GTC :: int
  ORDER_FILLING_IOC :: int
  ORDER_FILLING_FOK :: int
  ORDER_FILLING_RETURN :: int

text \<open>A tick and the symbol properties that the code reads.\<close>

record tick =
  bid :: real
  ask :: real

record symbol_spec =
  volume_min :: real
  volume_max :: real
  volume_step :: real
  filling_mode :: int

text \<open>
  The terminal as the calculator sees it. The calls inside \<open>try\<close> blocks may raise;
  \<open>symbol_info\<close> in \<open>calc_position_size\<close> is called outside any \<open>try\<close> block and returns
  the properties or \<open>None\<close>.
\<close>

record calc_env =
  calc_tick :: "string \<Rightarrow> tick option ext"
  order_calc_margin :: "int \<Rightarrow> string \<Rightarrow> real \<Rightarrow> real \<Rightarrow> real option ext"
  order_calc_profit :: "int \<Rightarrow> string \<Rightarrow> real \<Rightarrow> real \<Rightarrow> real \<Rightarrow> real option ext"
  calc_symbol_info :: "string \<Rightarrow> symbol_spec option"

text \<open>\<open>str.lower\<close> on ASCII letters.\<close>

definition lower_char :: "char \<Rightarrow> char" where
  "lower_char ch =
     (let n = (of_char ch :: nat) in if 65 \<le> n \<and> n \<le> 90 then char_of (n + 32) else ch)"

definition lower :: "string \<Rightarrow> string" where
  "lower s = map lower_char s"

definition get_order_type :: "mt5_constants \<Rightarrow> string \<Rightarrow> int option" where
  "get_order_type K action =
     map_of [(''buy'', ORDER_TYPE_BUY K), (''sell'', ORDER_TYPE_SELL K),
             (''buy_limit'', ORDER_TYPE_BUY_LIMIT K), (''sell_limit'', ORDER_TYPE_SELL_LIMIT K),
             (''buy_stop'', ORDER_TYPE_BUY_STOP K), (''sell_stop'', ORDER_TYPE_SELL_STOP K)]
       (lower action)"

text \<open>
  The price that \<open>calc_margin\<close> passes on. A given price is used as it is. Otherwise the
  tick is asked for; \<open>ask\<close> is taken when \<open>action\<close>, as written by the caller, is one of
  \<open>'buy'\<close>, \<open>'buy_limit'\<close>, \<open>'buy_stop'\<close>, and \<open>bid\<close> otherwise.
\<close>

definition margin_price ::
  "calc_env \<Rightarrow> string \<Rightarrow> string \<Rightarrow> real option \<Rightarrow> real option \<times> event list" where
  "margin_price env symbol action price =
     (case price of
        Some given \<Rightarrow> (Some given, [])
      | None \<Rightarrow>
          (case calc_tick env symbol of
             Raised \<Rightarrow> (None, [ExtCall ''symbol_info_tick'' [PStr symbol] [], LogError])
           | Returned None \<Rightarrow> (None, [ExtCall ''symbol_info_tick'' [PStr symbol] [], LogError])
           | Returned (Some t) \<Rightarrow>
               (Some (if action \<in> set [''buy'', ''buy_limit'', ''buy_stop''] then ask t else bid t),
                [ExtCall ''symbol_info_tick'' [PStr symbol] []])))"

definition calc_margin ::
  "mt5_constants \<Rightarrow> calc_env \<Rightarrow> connection \<Rightarrow> string \<Rightarrow> real \<Rightarrow> string \<Rightarrow> real option \<Rightarrow>
   real option \<times> event list" where
  "calc_margin K env c symbol volume action price =
     (if \<not> is_connected c then (None, [LogError])
      else
        (case get_order_type K action of
           None \<Rightarrow> (None, [LogError])
         | Some order_type \<Rightarrow>
             (case margin_price env symbol action price of
                (None, tr) \<Rightarrow> (None, tr)
              | (Some p, tr) \<Rightarrow>
                  (let call = ExtCall ''order_calc_margin''
                                [PInt order_type, PStr symbol, PFloat volume, PFloat p] []
                   in case order_calc_margin env order_type symbol volume p of
                        Raised \<Rightarrow> (None, tr @ [call, LogError])
                      | Returned None \<Rightarrow>
                          (None, tr @ [call, ExtCall ''last_error'' [] [], LogError])
                      | Returned (Some margin) \<Rightarrow> (Some margin, tr @ [call])))))"

definition profit_order_type :: "mt5_constants \<Rightarrow> string \<Rightarrow> int option" where
  "profit_order_type K action =
     (if lower action = ''buy'' then Some (ORDER_TYPE_BUY K)
      else if lower action = ''sell'' then Some (ORDER_TYPE_SELL K)
      else None)"

definition calc_profit ::
  "mt5_constants \<Rightarrow> calc_env \<Rightarrow> connection \<Rightarrow> string \<Rightarrow> real \<Rightarrow> real \<Rightarrow> real \<Rightarrow> string \<Rightarrow>
   real option \<times> event list" where
  "calc_profit K env c symbol volume price_open price_close action =
     (if \<not> is_connected c then (None, [LogError])
      else
        (case profit_order_type K action of
           None \<Rightarrow> (None, [LogError])
         | Some order_type \<Rightarrow>
             (let call = ExtCall ''order_calc_profit''
                           [PInt order_type, PStr symbol, PFloat volume,
                            PFloat price_open, PFloat price_close] []
              in case order_calc_profit env order_type symbol volume price_open price_close of
                   Raised \<Rightarrow> (None, [call, LogError])
                 | Returned None \<Rightarrow> (None, [call, ExtCall ''last_error'' [] [], LogError])
                 | Returned (Some profit) \<Rightarrow> (Some profit, [call]))))"

definition calc_risk_reward ::
  "mt5_constants \<Rightarrow> calc_env \<Rightarrow> connection \<Rightarrow> string \<Rightarrow> real \<Rightarrow> real \<Rightarrow> real \<Rightarrow> real \<Rightarrow>
   string \<Rightarrow> pydict option \<times> event list" where
  "calc_risk_reward K env c symbol volume entry_price sl_price tp_price action =
     (case calc_profit K env c symbol volume entry_price sl_price action of
        (None, tr1) \<Rightarrow> (None, tr1)
      | (Some sl_loss, tr1) \<Rightarrow>
          (case calc_profit K env c symbol volume entry_price tp_price action of
             (None, tr2) \<Rightarrow> (None, tr1 @ tr2)
           | (Some tp_profit, tr2) \<Rightarrow>
               (let risk_amount = \<bar>sl_loss\<bar>; reward_amount = \<bar>tp_profit\<bar>
                in if risk_amount = 0 then (None, tr1 @ tr2 @ [LogError])
                   else (Some [(''sl_loss'', PFloat sl_loss), (''tp_profit'', PFloat tp_profit),
                               (''risk_reward_ratio'', PFloat (reward_amount / risk_amount)),
                               (''risk_amount'', PFloat risk_amount),
                               (''reward_amount'', PFloat reward_amount)],
                         tr1 @ tr2))))"

text \<open>\<open>round(x, 2)\<close> on real numbers: to the nearest hundredth, ties to the even one.\<close>

definition round_half_even :: "real \<Rightarrow> int" where
  "round_half_even x =
     (let f = \<lfloor>x\<rfloor>; d = x - real_of_int f
      in if d < 1 / 2 then f else if d > 1 / 2 then f + 1 else if even f then f else f + 1)"

definition py_round2 :: "real \<Rightarrow> real" where
  "py_round2 x = real_of_int (round_half_even (x * 100)) / 100"

text \<open>The adjustment of the volume to the symbol's step and limits (\<open>//\<close> is floor division).\<close>

definition adjust_volume :: "symbol_spec option \<Rightarrow> real \<Rightarrow> real" where
  "adjust_volume info volume =
     (case info of
        None \<Rightarrow> volume
      | Some si \<Rightarrow>
          (let stepped = (if volume_step si > 0
                          then real_of_int \<lfloor>volume / volume_step si\<rfloor> * volume_step si
                          else volume)
           in max (volume_min si) (min stepped (volume_max si))))"

definition calc_position_size ::
  "mt5_constants \<Rightarrow> calc_env \<Rightarrow> connection \<Rightarrow> string \<Rightarrow> real \<Rightarrow> real \<Rightarrow> real \<Rightarrow> string \<Rightarrow>
   real option \<times> event list" where
  "calc_position_size K env c symbol risk_amount entry_price sl_price action =
     (case calc_profit K env c symbol 1 entry_price sl_price action of
        (None, tr) \<Rightarrow> (None, tr)
      | (Some loss, tr) \<Rightarrow>
          (let loss_per_lot = \<bar>loss\<bar>
           in if loss_per_lot = 0 then (None, tr @ [LogError])
              else (Some (py_round2 (adjust_volume (calc_symbol_info env symbol)
                                       (risk_amount / loss_per_lot))),
                    tr @ [ExtCall ''symbol_info'' [PStr symbol] []])))"

text \<open>The calls of the two external calculation functions in a trace.\<close>

fun is_calc_call :: "event \<Rightarrow> bool" where
  "is_calc_call (ExtCall name args kwargs) =
     (name = ''order_calc_margin'' \<or> name = ''order_calc_profit'')"
| "is_calc_call _ = False"

definition calc_calls :: "event list \<Rightarrow> nat" where
  "calc_calls tr = length (filter is_calc_call tr)"

text \<open>
  Example values of the constants, and a terminal that computes a loss of 50 for one lot
  and knows no properties of the symbol.
\<close>

definition example_constants :: mt5_constants where
  "example_constants =
     \<lparr>ORDER_TYPE_BUY = 0, ORDER_TYPE_SELL = 1, ORDER_TYPE_BUY_LIMIT = 2,
      ORDER_TYPE_SELL_LIMIT = 3, ORDER_TYPE_BUY_STOP = 4, ORDER_TYPE_SELL_STOP = 5,
      TRADE_ACTION_DEAL = 1, TRADE_ACTION_PENDING = 5, ORDER_TIME_GTC = 0,
      ORDER_FILLING_IOC = 1, ORDER_FILLING_FOK = 0, ORDER_FILLING_RETURN = 2\<rparr>"

definition example_calc_env :: calc_env where
  "example_calc_env =
     \<lparr>calc_tick = (\<lambda>s. Returned (Some \<lparr>bid = 1, ask = 2\<rparr>)),
      order_calc_margin = (\<lambda>t s v p. Returned (Some 100)),
      order_calc_profit = (\<lambda>t s v po pc. Returned (Some (- 50))),
      calc_symbol_info = (\<lambda>s. None)\<rparr>"

section \<open>trade/request\_builder.py\<close>

unbundle bit_operations_syntax

text \<open>
  The executor that a builder holds: an object with the methods \<open>send\<close> and \<open>check\<close>, each
  taking the request dictionary; \<open>'r\<close> is whatever they return or raise.
\<close>

record 'r executor_obj =
  ex_send :: "pydict \<Rightarrow> 'r"
  ex_check :: "pydict \<Rightarrow> 'r"

text \<open>
  The attributes of \<open>OrderRequestBuilder\<close>, typed as the annotations of its methods type
  them. The attribute \<open>_connection\<close> is stored by \<open>__init__\<close> and read by no method; it is
  left out.
\<close>

record 'r builder =
  b_symbol :: string
  b_executor :: "'r executor_obj"
  b_default_magic :: int
  b_action :: "int option"
  b_order_type :: "int option"
  b_volume :: real
  b_price :: real
  b_sl :: real
  b_tp :: real
  b_deviation :: int
  b_magic :: int
  b_comment :: string
  b_position :: int

definition init_builder :: "string \<Rightarrow> 'r executor_obj \<Rightarrow> int \<Rightarrow> 'r builder" where
  "init_builder symbol executor default_magic =
     \<lparr>b_symbol = symbol, b_executor = executor, b_default_magic = default_magic,
      b_action = None, b_order_type = None, b_volume = 0, b_price = 0, b_sl = 0, b_tp = 0,
      b_deviation = 20, b_magic = default_magic, b_comment = [], b_position = 0\<rparr>"

text \<open>
  Builders are objects that their methods change in place and return. A store maps
  references to builder objects; a method takes the reference \<open>self\<close> and the store, and
  gives back the returned reference (or the exception) and the store afterwards.
\<close>

type_synonym ref = nat

type_synonym 'r store = "ref \<Rightarrow> 'r builder"

text \<open>
  The terminal as the builder sees it: \<open>symbol_info_tick\<close> and \<open>symbol_info\<close> return a
  value or \<open>None\<close>.
\<close>

record builder_env =
  symbol_info_tick :: "string \<Rightarrow> tick option"
  symbol_info :: "string \<Rightarrow> symbol_spec option"

definition get_ask_price :: "builder_env \<Rightarrow> 'r builder \<Rightarrow> error + real" where
  "get_ask_price env b =
     (case symbol_info_tick env (b_symbol b) of None \<Rightarrow> Inl ValueError | Some t \<Rightarrow> Inr (ask t))"

definition get_bid_price :: "builder_env \<Rightarrow> 'r builder \<Rightarrow> error + real" where
  "get_bid_price env b =
     (case symbol_info_tick env (b_symbol b) of None \<Rightarrow> Inl ValueError | Some t \<Rightarrow> Inr (bid t))"

definition get_filling_mode :: "mt5_constants \<Rightarrow> builder_env \<Rightarrow> 'r builder \<Rightarrow> int" where
  "get_filling_mode K env b =
     (case symbol_info env (b_symbol b) of
        None \<Rightarrow> ORDER_FILLING_IOC K
      | Some si \<Rightarrow>
          if filling_mode si AND 1 \<noteq> 0 then ORDER_FILLING_IOC K
          else if filling_mode si AND 2 \<noteq> 0 then ORDER_FILLING_FOK K
          else ORDER_FILLING_RETURN K)"

text \<open>
  The order-type methods. \<open>market_buy\<close> and \<open>market_sell\<close> assign action, type and volume
  before they ask for the price, so these stay assigned when the price query raises;
  \<open>market_sell\<close> assigns the position after the price.
\<close>

definition market_buy ::
  "mt5_constants \<Rightarrow> builder_env \<Rightarrow> ref \<Rightarrow> real \<Rightarrow> 'r store \<Rightarrow> (error + ref) \<times> 'r store" where
  "market_buy K env self volume h =
     (let h1 = h(self := (h self)\<lparr>b_action := Some (TRADE_ACTION_DEAL K),
                                  b_order_type := Some (ORDER_TYPE_BUY K),
                                  b_volume := volume\<rparr>)
      in case get_ask_price env (h1 self) of
           Inl e \<Rightarrow> (Inl e, h1)
         | Inr p \<Rightarrow> (Inr self, h1(self := (h1 self)\<lparr>b_price := p\<rparr>)))"

definition market_sell ::
  "mt5_constants \<Rightarrow> builder_env \<Rightarrow> ref \<Rightarrow> real \<Rightarrow> int \<Rightarrow> 'r store \<Rightarrow> (error + ref) \<times> 'r store" where
  "market_sell K env self volume position h =
     (let h1 = h(self := (h self)\<lparr>b_action := Some (TRADE_ACTION_DEAL K),
                                  b_order_type := Some (ORDER_TYPE_SELL K),
                                  b_volume := volume\<rparr>)
      in case get_bid_price env (h1 self) of
           Inl e \<Rightarrow> (Inl e, h1)
         | Inr p \<Rightarrow> (Inr self, h1(self := (h1 self)\<lparr>b_price := p, b_position := position\<rparr>)))"

definition pending ::
  "mt5_constants \<Rightarrow> int \<Rightarrow> ref \<Rightarrow> real \<Rightarrow> real \<Rightarrow> 'r store \<Rightarrow> (error + ref) \<times> 'r store" where
  "pending K order_type self volume price h =
     (Inr self,
      h(self := (h self)\<lparr>b_action := Some (TRADE_ACTION_PENDING K),
                         b_order_type := Some order_type,
                         b_volume := volume, b_price := price\<rparr>))"

definition limit_buy ::
  "mt5_constants \<Rightarrow> ref \<Rightarrow> real \<Rightarrow> real \<Rightarrow> 'r store \<Rightarrow> (error + ref) \<times> 'r store" where
  "limit_buy K self volume price h = pending K (ORDER_TYPE_BUY_LIMIT K) self volume price h"

definition limit_sell ::
  "mt5_constants \<Rightarrow> ref \<Rightarrow> real \<Rightarrow> real \<Rightarrow> 'r store \<Rightarrow> (error + ref) \<times> 'r store" where
  "limit_sell K self volume price h = pending K (ORDER_TYPE_SELL_LIMIT K) self volume price h"

definition stop_buy ::
  "mt5_constants \<Rightarrow> ref \<Rightarrow> real \<Rightarrow> real \<Rightarrow> 'r store \<Rightarrow> (error + ref) \<times> 'r store" where
  "stop_buy K self volume price h = pending K (ORDER_TYPE_BUY_STOP K) self volume price h"

definition stop_sell ::
  "mt5_constants \<Rightarrow> ref \<Rightarrow> real \<Rightarrow> real \<Rightarrow> 'r store \<Rightarrow> (error + ref) \<times> 'r store" where
  "stop_sell K self volume price h = pending K (ORDER_TYPE_SELL_STOP K) self volume price h"

text \<open>The methods for the optional parameters.\<close>

definition with_sl :: "ref \<Rightarrow> real \<Rightarrow> 'r store \<Rightarrow> (error + ref) \<times> 'r store" where
  "with_sl self sl h = (Inr self, h(self := (h self)\<lparr>b_sl := sl\<rparr>))"

definition with_tp :: "ref \<Rightarrow> real \<Rightarrow> 'r store \<Rightarrow> (error + ref) \<times> 'r store" where
  "with_tp self tp h = (Inr self, h(self := (h self)\<lparr>b_tp := tp\<rparr>))"

definition with_sl_tp :: "ref \<Rightarrow> real \<Rightarrow> real \<Rightarrow> 'r store \<Rightarrow> (error + ref) \<times> 'r store" where
  "with_sl_tp self sl tp h = (Inr self, h(self := (h self)\<lparr>b_sl := sl, b_tp := tp\<rparr>))"

definition with_deviation :: "ref \<Rightarrow> int \<Rightarrow> 'r store \<Rightarrow> (error + ref) \<times> 'r store" where
  "with_deviation self deviation h = (Inr self, h(self := (h self)\<lparr>b_deviation := deviation\<rparr>))"

definition with_magic :: "ref \<Rightarrow> int \<Rightarrow> 'r store \<Rightarrow> (error + ref) \<times> 'r store" where
  "with_magic self magic h = (Inr self, h(self := (h self)\<lparr>b_magic := magic\<rparr>))"

definition with_comment :: "ref \<Rightarrow> string \<Rightarrow> 'r store \<Rightarrow> (error + ref) \<times> 'r store" where
  "with_comment self comment h = (Inr self, h(self := (h self)\<lparr>b_comment := comment\<rparr>))"

text \<open>The terminal methods. \<open>build\<close> reads the object and changes nothing.\<close>

definition build :: "mt5_constants \<Rightarrow> builder_env \<Rightarrow> ref \<Rightarrow> 'r store \<Rightarrow> error + pydict" where
  "build K env self h =
     (let b = h self
      in case (b_action b, b_order_type b) of
           (Some action, Some order_type) \<Rightarrow>
             (let request =
                    [(''action'', PInt action), (''symbol'', PStr (b_symbol b)),
                     (''volume'', PFloat (b_volume b)), (''type'', PInt order_type),
                     (''price'', PFloat (b_price b)), (''sl'', PFloat (b_sl b)),
                     (''tp'', PFloat (b_tp b)), (''deviation'', PInt (b_deviation b)),
                     (''magic'', PInt (b_magic b)), (''comment'', PStr (b_comment b)),
                     (''type_time'', PInt (ORDER_TIME_GTC K)),
                     (''type_filling'', PInt (get_filling_mode K env b))]
              in Inr (if b_position b > 0
                      then AList.update ''position'' (PInt (b_position b)) request
                      else request))
         | _ \<Rightarrow> Inl ValueError)"

definition builder_send :: "mt5_constants \<Rightarrow> builder_env \<Rightarrow> ref \<Rightarrow> 'r store \<Rightarrow> error + 'r" where
  "builder_send K env self h =
     (case build K env self h of
        Inl e \<Rightarrow> Inl e
      | Inr request \<Rightarrow> Inr (ex_send (b_executor (h self)) request))"

definition builder_check :: "mt5_constants \<Rightarrow> builder_env \<Rightarrow> ref \<Rightarrow> 'r store \<Rightarrow> error + 'r" where
  "builder_check K env self h =
     (case build K env self h of
        Inl e \<Rightarrow> Inl e
      | Inr request \<Rightarrow> Inr (ex_check (b_executor (h self)) request))"

text \<open>
  A call of any of the twelve chaining methods with its arguments, and the chaining itself:
  \<open>x.m(...)\<close> applied to what the call before returned.
\<close>

datatype builder_call =
    MarketBuy real
  | MarketSell real int
  | LimitBuy real real
  | LimitSell real real
  | StopBuy real real
  | StopSell real real
  | WithSl real
  | WithTp real
  | WithSlTp real real
  | WithDeviation int
  | WithMagic int
  | WithComment string

fun invoke ::
  "mt5_constants \<Rightarrow> builder_env \<Rightarrow> ref \<Rightarrow> builder_call \<Rightarrow> 'r store \<Rightarrow> (error + ref) \<times> 'r store" where
  "invoke K env self (MarketBuy volume) h = market_buy K env self volume h"
| "invoke K env self (MarketSell volume position) h = market_sell K env self volume position h"
| "invoke K env self (LimitBuy volume price) h = limit_buy K self volume price h"
| "invoke K env self (LimitSell volume price) h = limit_sell K self volume price h"
| "invoke K env self (StopBuy volume price) h = stop_buy K self volume price h"
| "invoke K env self (StopSell volume price) h = stop_sell K self volume price h"
| "invoke K env self (WithSl sl) h = with_sl self sl h"
| "invoke K env self (WithTp tp) h = with_tp self tp h"
| "invoke K env self (WithSlTp sl tp) h = with_sl_tp self sl tp h"
| "invoke K env self (WithDeviation deviation) h = with_deviation self deviation h"
| "invoke K env self (WithMagic magic) h = with_magic self magic h"
| "invoke K env self (WithComment comment) h = with_comment self comment h"

definition then_call ::
  "(error + ref) \<times> 'r store \<Rightarrow> (ref \<Rightarrow> 'r store \<Rightarrow> (error + ref) \<times> 'r store) \<Rightarrow>
   (error + ref) \<times> 'r store" where
  "then_call r method =
     (case r of (Inl e, h) \<Rightarrow> (Inl e, h) | (Inr obj, h) \<Rightarrow> method obj h)"

fun is_market_call :: "builder_call \<Rightarrow> bool" where
  "is_market_call (MarketBuy volume) = True"
| "is_market_call (MarketSell volume position) = True"
| "is_market_call _ = False"

fun is_order_call :: "builder_call \<Rightarrow> bool" where
  "is_order_call (WithSl sl) = False"
| "is_order_call (WithTp tp) = False"
| "is_order_call (WithSlTp sl tp) = False"
| "is_order_call (WithDeviation deviation) = False"
| "is_order_call (WithMagic magic) = False"
| "is_order_call (WithComment comment) = False"
| "is_order_call _ = True"

text \<open>The volume argument of an order-type call.\<close>

fun call_volume :: "builder_call \<Rightarrow> real" where
  "call_volume (MarketBuy volume) = volume"
| "call_volume (MarketSell volume position) = volume"
| "call_volume (LimitBuy volume price) = volume"
| "call_volume (LimitSell volume price) = volume"
| "call_volume (StopBuy volume price) = volume"
| "call_volume (StopSell volume price) = volume"
| "call_volume _ = 0"

text \<open>The entries that a \<open>with_*\<close> call sets in the request that \<open>build\<close> produces.\<close>

fun with_entries :: "builder_call \<Rightarrow> (string \<times> pyobj) list" where
  "with_entries (WithSl sl) = [(''sl'', PFloat sl)]"
| "with_entries (WithTp tp) = [(''tp'', PFloat tp)]"
| "with_entries (WithSlTp sl tp) = [(''sl'', PFloat sl), (''tp'', PFloat tp)]"
| "with_entries (WithDeviation deviation) = [(''deviation'', PInt deviation)]"
| "with_entries (WithMagic magic) = [(''magic'', PInt magic)]"
| "with_entries (WithComment comment) = [(''comment'', PStr comment)]"
| "with_entries _ = []"

definition request_keys :: "string list" where
  "request_keys =
     [''action'', ''symbol'', ''volume'', ''type'', ''price'', ''sl'', ''tp'', ''deviation'',
      ''magic'', ''comment'', ''type_time'', ''type_filling'']"

text \<open>
  An executor that answers with the number of entries of the request, a terminal with a
  tick for every symbol, and one without any tick.
\<close>

definition counting_executor :: "nat executor_obj" where
  "counting_executor = \<lparr>ex_send = (\<lambda>request. length request), ex_check = (\<lambda>request. 0)\<rparr>"

definition quoting_env :: builder_env where
  "quoting_env =
     \<lparr>symbol_info_tick = (\<lambda>s. Some \<lparr>bid = 1, ask = 2\<rparr>),
      symbol_info = (\<lambda>s. Some \<lparr>volume_min = 1, volume_max = 100, volume_step = 1,
                               filling_mode = 2\<rparr>)\<rparr>"

definition silent_env :: builder_env where
  "silent_env = \<lparr>symbol_info_tick = (\<lambda>s. None), symbol_info = (\<lambda>s. None)\<rparr>"

definition fresh_store :: "nat store" where
  "fresh_store = (\<lambda>r. init_builder ''EURUSD'' counting_executor 7)"

section \<open>Properties of converters.py\<close>

lemma add_fields_loop_datetime_raises:
  "g \<in> set fs \<Longrightarrow> map_of data g = Some (PDatetime t) \<Longrightarrow>
   add_fields_loop data fs suffix = Inl TypeError"
proof (induction fs arbitrary: data t)
  case Nil
  then show ?case by simp
next
  case (Cons f fs)
  show ?case
  proof (cases "g = f")
    case True
    with Cons.prems show ?thesis by simp
  next
    case False
    with Cons.prems have g: "g \<in> set fs" by simp
    have same: "add_fields_loop data fs suffix = Inl TypeError"
      using Cons.IH [OF g Cons.prems(2)] .
    have upd: "add_fields_loop (AList.update k (PDatetime s) data) fs suffix = Inl TypeError"
      for k s
    proof (cases "k = g")
      case True
      have "map_of (AList.update k (PDatetime s) data) g = Some (PDatetime s)"
        using True by (simp add: update_conv')
      then show ?thesis using Cons.IH [OF g] by blast
    next
      case False
      have "map_of (AList.update k (PDatetime s) data) g = Some (PDatetime t)"
        using False Cons.prems(2) by (simp add: update_conv')
      then show ?thesis using Cons.IH [OF g] by blast
    qed
    show ?thesis
      by (simp add: same upd split: option.splits)
  qed
qed

lemma qualifies_update_other:
  "g \<noteq> k \<Longrightarrow> qualifies (AList.update k v data) g = qualifies data g"
  by (simp add: qualifies_def update_conv')

lemma companion_value_update_other:
  "g \<noteq> k \<Longrightarrow> companion_value (AList.update k v data) g = companion_value data g"
  by (simp add: companion_value_def update_conv')

lemma add_fields_loop_step:
  "add_fields_loop data (f # fs) suffix =
     (if qualifies data f
      then add_fields_loop (AList.update (f @ suffix) (companion_value data f) data) fs suffix
      else if (\<exists>v. map_of data f = Some v \<and> truthy v \<and> num_of v = None) then Inl TypeError
      else add_fields_loop data fs suffix)"
  by (auto simp: qualifies_def companion_value_def split: option.splits)

lemma add_fields_loop_result:
  "add_fields_loop data fs suffix = Inr data' \<Longrightarrow>
   map_of data' k =
     (if \<exists>f \<in> set fs. k = f @ suffix \<and> qualifies data f
      then Some (companion_value data (take (length k - length suffix) k))
      else map_of data k)"
proof (induction fs arbitrary: data)
  case Nil
  then show ?case by simp
next
  case (Cons f fs)
  show ?case
  proof (cases "qualifies data f")
    case False
    with Cons.prems have rest: "add_fields_loop data fs suffix = Inr data'"
      by (simp add: add_fields_loop_step del: add_fields_loop.simps split: if_splits)
    show ?thesis using Cons.IH [OF rest] False by auto
  next
    case True
    define d1 where "d1 = AList.update (f @ suffix) (companion_value data f) data"
    from True Cons.prems have rest: "add_fields_loop d1 fs suffix = Inr data'"
      by (simp add: add_fields_loop_step d1_def del: add_fields_loop.simps)
    from True obtain t where cv: "companion_value data f = PDatetime t"
      by (auto simp: qualifies_def companion_value_def split: option.splits)
    have d1_comp: "map_of d1 (f @ suffix) = Some (PDatetime t)"
      by (simp add: d1_def update_conv' cv)
    have notin: "f @ suffix \<notin> set fs"
    proof
      assume "f @ suffix \<in> set fs"
      from add_fields_loop_datetime_raises [OF this d1_comp] rest show False by simp
    qed
    have q: "qualifies d1 g = qualifies data g" if "g \<in> set fs" for g
      using that notin unfolding d1_def by (intro qualifies_update_other) auto
    have c: "companion_value d1 g = companion_value data g" if "g \<in> set fs" for g
      using that notin unfolding d1_def by (intro companion_value_update_other) auto
    have ih: "map_of data' k =
       (if \<exists>g \<in> set fs. k = g @ suffix \<and> qualifies d1 g
        then Some (companion_value d1 (take (length k - length suffix) k))
        else map_of d1 k)"
      using Cons.IH [OF rest] .
    show ?thesis
    proof (cases "\<exists>g \<in> set fs. k = g @ suffix \<and> qualifies d1 g")
      case True
      then obtain g where g: "g \<in> set fs" "k = g @ suffix" "qualifies d1 g" by blast
      have tk: "take (length k - length suffix) k = g" using g(2) by simp
      have "map_of data' k = Some (companion_value d1 g)" using ih True tk by simp
      also have "\<dots> = Some (companion_value data g)" using c [OF g(1)] by simp
      finally have lhs: "map_of data' k = Some (companion_value data g)" .
      have "\<exists>h \<in> set (f # fs). k = h @ suffix \<and> qualifies data h"
        using g q [OF g(1)] by auto
      then show ?thesis using lhs tk by simp
    next
      case False
      have lhs: "map_of data' k = map_of d1 k"
        by (subst ih) (use False in \<open>simp only: if_False\<close>)
      show ?thesis
      proof (cases "k = f @ suffix")
        case True
        then have tk: "take (length k - length suffix) k = f" by simp
        have "map_of data' k = Some (companion_value data f)"
          using lhs True by (simp add: d1_def update_conv')
        moreover have "\<exists>h \<in> set (f # fs). k = h @ suffix \<and> qualifies data h"
          using True \<open>qualifies data f\<close> by auto
        ultimately show ?thesis using tk by simp
      next
        case kf: False
        have l: "map_of data' k = map_of data k"
          using lhs kf by (simp add: d1_def update_conv')
        have neg: "\<not> (\<exists>h \<in> set (f # fs). k = h @ suffix \<and> qualifies data h)"
          using False kf q by auto
        show ?thesis by (simp only: neg if_False l)
      qed
    qed
  qed
qed

lemma add_fields_loop_returns:
  "numeric_fields data fs \<Longrightarrow> no_listed_companion fs suffix \<Longrightarrow>
   \<exists>data'. add_fields_loop data fs suffix = Inr data'"
proof (induction fs arbitrary: data)
  case Nil
  then show ?case by simp
next
  case (Cons f fs)
  have nl: "no_listed_companion fs suffix"
    using Cons.prems(2) by (auto simp: no_listed_companion_def list_all_iff)
  have nf: "numeric_fields data fs"
    using Cons.prems(1) by (simp add: numeric_fields_def)
  have ok: "\<not> (\<exists>v. map_of data f = Some v \<and> truthy v \<and> num_of v = None)"
    using Cons.prems(1) by (auto simp: numeric_fields_def)
  show ?case
  proof (cases "qualifies data f")
    case False
    then show ?thesis using Cons.IH [OF nf nl] ok by (simp add: add_fields_loop_step del: add_fields_loop.simps)
  next
    case True
    have fresh: "\<forall>g \<in> set fs. g \<noteq> f @ suffix"
      using Cons.prems(2) by (auto simp: no_listed_companion_def list_all_iff)
    have "numeric_fields (AList.update (f @ suffix) (companion_value data f) data) fs"
      using nf fresh by (auto simp: numeric_fields_def list_all_iff update_conv')
    from Cons.IH [OF this nl] show ?thesis using True by (simp add: add_fields_loop_step del: add_fields_loop.simps)
  qed
qed

lemma add_fields_loop_keys:
  assumes "add_fields_loop data fs suffix = Inr data'"
  shows "fst ` set data' = fst ` set data \<union> {f @ suffix |f. f \<in> set fs \<and> qualifies data f}"
proof -
  have "k \<in> dom (map_of data') \<longleftrightarrow>
        k \<in> dom (map_of data) \<union> {f @ suffix |f. f \<in> set fs \<and> qualifies data f}" for k
  proof (cases "\<exists>f \<in> set fs. k = f @ suffix \<and> qualifies data f")
    case True
    have "map_of data' k = Some (companion_value data (take (length k - length suffix) k))"
      by (subst add_fields_loop_result [OF assms]) (simp only: True if_True)
    then have "k \<in> dom (map_of data')" by blast
    moreover have "k \<in> {f @ suffix |f. f \<in> set fs \<and> qualifies data f}" using True by blast
    ultimately show ?thesis by blast
  next
    case False
    have "map_of data' k = map_of data k"
      by (subst add_fields_loop_result [OF assms]) (simp only: False if_False)
    then have "k \<in> dom (map_of data') \<longleftrightarrow> k \<in> dom (map_of data)" by (simp add: dom_def)
    moreover have "k \<notin> {f @ suffix |f. f \<in> set fs \<and> qualifies data f}" using False by blast
    ultimately show ?thesis by blast
  qed
  then have "dom (map_of data') =
             dom (map_of data) \<union> {f @ suffix |f. f \<in> set fs \<and> qualifies data f}"
    by blast
  then show ?thesis by (simp only: dom_map_of_conv_image_fst)
qed

lemma add_fields_loop_distinct:
  "add_fields_loop data fs suffix = Inr data' \<Longrightarrow> distinct (map fst data) \<Longrightarrow>
   distinct (map fst data')"
proof (induction fs arbitrary: data)
  case Nil
  then show ?case by simp
next
  case (Cons f fs)
  show ?case
  proof (cases "qualifies data f")
    case False
    with Cons.prems(1) have rest: "add_fields_loop data fs suffix = Inr data'"
      by (simp add: add_fields_loop_step del: add_fields_loop.simps split: if_splits)
    show ?thesis using Cons.IH [OF rest Cons.prems(2)] .
  next
    case True
    with Cons.prems(1) have rest:
      "add_fields_loop (AList.update (f @ suffix) (companion_value data f) data) fs suffix
       = Inr data'"
      by (simp add: add_fields_loop_step del: add_fields_loop.simps)
    show ?thesis using Cons.IH [OF rest distinct_update [OF Cons.prems(2)]] .
  qed
qed

subsection \<open>Claim C10\<close>




section \<open>Properties of core/connection.py\<close>

lemma res_of_prepend [simp]: "res_of (prepend evs r) = res_of r"
  by (cases r) (simp add: prepend_def res_of_def)

lemma conn_of_prepend [simp]: "conn_of (prepend evs r) = conn_of r"
  by (cases r) (simp add: prepend_def conn_of_def)

lemma trace_of_prepend [simp]: "trace_of (prepend evs r) = evs @ trace_of r"
  by (cases r) (simp add: prepend_def trace_of_def)

lemma parts_triple [simp]:
  "res_of (x, c, tr) = x" "conn_of (x, c, tr) = c" "trace_of (x, c, tr) = tr"
  by (simp_all add: res_of_def conn_of_def trace_of_def)

lemma is_init_call_initialize_call [simp]: "is_init_call (initialize_call p)"
  by (simp add: initialize_call_def Let_def split: option.splits)

lemma is_sleep_initialize_call [simp]: "\<not> is_sleep (initialize_call p)"
  by (simp add: initialize_call_def Let_def split: option.splits)

lemma sleeps_initialize_call [simp]: "sleeps (initialize_call p # tr) = sleeps tr"
  by (simp add: initialize_call_def Let_def split: option.splits)

lemma sleeps_append [simp]: "sleeps (xs @ ys) = sleeps xs @ sleeps ys"
  by (induction xs rule: sleeps.induct) simp_all

lemma init_calls_append [simp]: "init_calls (xs @ ys) = init_calls xs + init_calls ys"
  by (simp add: init_calls_def)

lemma init_calls_simps [simp]:
  "init_calls [] = 0"
  "init_calls (initialize_call p # tr) = Suc (init_calls tr)"
  "init_calls (LogInfo # tr) = init_calls tr"
  "init_calls (LogWarning # tr) = init_calls tr"
  "init_calls (LogError # tr) = init_calls tr"
  "init_calls (Spawn s # tr) = init_calls tr"
  "init_calls (Sleep d # tr) = init_calls tr"
  by (simp_all add: init_calls_def)

text \<open>The three ways one iteration of the loop can go.\<close>

lemma loop_succeeded:
  "outcome_at env a = InitSucceeded \<Longrightarrow>
   initialize_loop env p a (Suc n) c =
     (Inr True,
      c\<lparr>connected_attr := True, login_attr := p_login p, server_attr := p_server p\<rparr>,
      [initialize_call p, LogInfo])"
  by simp

lemma loop_spawned:
  "spawned env p \<Longrightarrow>
   initialize_loop env p 0 (Suc n) c =
     prepend [initialize_call p, LogInfo, Spawn (the (p_path p)), LogInfo, Sleep 5]
       (initialize_loop env p (Suc 0) n c)"
  by (simp add: spawned_def)

lemma loop_failed:
  "outcome_at env a \<noteq> InitSucceeded \<Longrightarrow> \<not> (a = 0 \<and> spawned env p) \<Longrightarrow>
   initialize_loop env p a (Suc n) c =
     prepend (failed_prefix env p a @
              (if int a < p_retry p - 1 then [Sleep (p_retry_delay p)] else []))
       (initialize_loop env p (Suc a) n (c\<lparr>connected_attr := False\<rparr>))"
  by (cases "outcome_at env a") (auto simp: spawned_def failed_prefix_def)

lemma failed_prefix_calls [simp]:
  "outcome_at env a \<noteq> InitSucceeded \<Longrightarrow> init_calls (failed_prefix env p a) = 1"
  by (cases "outcome_at env a") (auto simp: failed_prefix_def)

lemma failed_prefix_sleeps [simp]: "sleeps (failed_prefix env p a) = []"
  by (cases "outcome_at env a") (auto simp: failed_prefix_def)

lemma failed_prefix_alternates:
  "outcome_at env a \<noteq> InitSucceeded \<Longrightarrow>
   alternates True (failed_prefix env p a @ tr) = alternates False tr"
  by (cases "outcome_at env a") (auto simp: failed_prefix_def)

lemma sleep_condition:
  "a + Suc n = nat r \<Longrightarrow> (int a < r - 1) = (0 < n)"
  by auto

lemma first_success_Some:
  "first_success env a n = Some i \<Longrightarrow>
   a \<le> i \<and> i < a + n \<and> outcome_at env i = InitSucceeded \<and>
   (\<forall>j. a \<le> j \<and> j < i \<longrightarrow> outcome_at env j \<noteq> InitSucceeded)"
proof (induction n arbitrary: a)
  case 0
  then show ?case by simp
next
  case (Suc n)
  show ?case
  proof (cases "outcome_at env a = InitSucceeded")
    case True
    with Suc.prems show ?thesis by auto
  next
    case False
    with Suc.prems have "first_success env (Suc a) n = Some i" by simp
    from Suc.IH [OF this] have ih: "Suc a \<le> i" "i < Suc a + n" "outcome_at env i = InitSucceeded"
      "\<forall>j. Suc a \<le> j \<and> j < i \<longrightarrow> outcome_at env j \<noteq> InitSucceeded" by auto
    have "outcome_at env j \<noteq> InitSucceeded" if "a \<le> j" "j < i" for j
    proof (cases "j = a")
      case True
      then show ?thesis using False by simp
    next
      case False
      then show ?thesis using that ih(4) by auto
    qed
    then show ?thesis using ih by auto
  qed
qed

lemma first_success_None:
  "first_success env a n = None \<longleftrightarrow> (\<forall>i. a \<le> i \<and> i < a + n \<longrightarrow> outcome_at env i \<noteq> InitSucceeded)"
proof (induction n arbitrary: a)
  case 0
  then show ?case by auto
next
  case (Suc n)
  show ?case
  proof (cases "outcome_at env a = InitSucceeded")
    case True
    then show ?thesis by auto
  next
    case False
    have "(\<forall>i. a \<le> i \<and> i < a + Suc n \<longrightarrow> outcome_at env i \<noteq> InitSucceeded) \<longleftrightarrow>
          (\<forall>i. Suc a \<le> i \<and> i < Suc a + n \<longrightarrow> outcome_at env i \<noteq> InitSucceeded)"
    proof
      assume l: "\<forall>i. a \<le> i \<and> i < a + Suc n \<longrightarrow> outcome_at env i \<noteq> InitSucceeded"
      show "\<forall>i. Suc a \<le> i \<and> i < Suc a + n \<longrightarrow> outcome_at env i \<noteq> InitSucceeded"
        using l by auto
    next
      assume r: "\<forall>i. Suc a \<le> i \<and> i < Suc a + n \<longrightarrow> outcome_at env i \<noteq> InitSucceeded"
      show "\<forall>i. a \<le> i \<and> i < a + Suc n \<longrightarrow> outcome_at env i \<noteq> InitSucceeded"
      proof (intro allI impI)
        fix i assume i: "a \<le> i \<and> i < a + Suc n"
        show "outcome_at env i \<noteq> InitSucceeded"
        proof (cases "i = a")
          case True
          then show ?thesis using False by simp
        next
          case ne: False
          then have "Suc a \<le> i \<and> i < Suc a + n" using i by auto
          then show ?thesis using r by blast
        qed
      qed
    qed
    then show ?thesis using False Suc.IH [of "Suc a"] by simp
  qed
qed

lemma attempts_made_Suc:
  assumes "outcome_at env a \<noteq> InitSucceeded"
  shows "attempts_made env a (Suc n) = Suc (attempts_made env (Suc a) n)"
proof (cases "first_success env (Suc a) n")
  case None
  then show ?thesis using assms by (simp add: attempts_made_def)
next
  case (Some i)
  from first_success_Some [OF Some] have "Suc a \<le> i" by simp
  then have "Suc (i - a) = Suc (Suc (i - Suc a))" by simp
  then show ?thesis using assms Some by (simp add: attempts_made_def)
qed

lemma attempts_made_succeeded:
  "outcome_at env a = InitSucceeded \<Longrightarrow> attempts_made env a (Suc n) = 1"
  by (simp add: attempts_made_def)

lemma attempts_made_zero [simp]: "attempts_made env a 0 = 0"
  by (simp add: attempts_made_def)

lemma attempts_made_pos: "0 < n \<Longrightarrow> 0 < attempts_made env a n"
  by (simp add: attempts_made_def split: option.splits)

lemma attempts_made_le: "attempts_made env a n \<le> n"
proof (cases "first_success env a n")
  case None
  then show ?thesis by (simp add: attempts_made_def)
next
  case (Some i)
  from first_success_Some [OF Some] have "a \<le> i" "i < a + n" by simp_all
  then show ?thesis using Some by (simp add: attempts_made_def)
qed

lemma spawned_not_succeeded: "spawned env p \<Longrightarrow> outcome_at env 0 \<noteq> InitSucceeded"
  by (simp add: spawned_def)

lemma loop_result:
  "res_of (initialize_loop env p a n c) =
     (case first_success env a n of
        Some i \<Rightarrow> Inr True
      | None \<Rightarrow> Inl (MT5ConnectionError None))"
proof (induction n arbitrary: a c)
  case 0
  show ?case by simp
next
  case (Suc n)
  consider (succ) "outcome_at env a = InitSucceeded"
    | (spawn) "outcome_at env a \<noteq> InitSucceeded" "a = 0 \<and> spawned env p"
    | (fail) "outcome_at env a \<noteq> InitSucceeded" "\<not> (a = 0 \<and> spawned env p)"
    by blast
  then show ?case
  proof cases
    case succ
    then show ?thesis by (simp only: loop_succeeded parts_triple first_success.simps) simp
  next
    case spawn
    then have eq: "initialize_loop env p a (Suc n) c =
        prepend [initialize_call p, LogInfo, Spawn (the (p_path p)), LogInfo, Sleep 5]
          (initialize_loop env p (Suc a) n c)"
      using loop_spawned [of env p n c] by simp
    show ?thesis using spawn(1) Suc.IH [of "Suc a" c]
      by (simp only: eq res_of_prepend first_success.simps if_False)
  next
    case fail
    show ?thesis using fail(1) Suc.IH [of "Suc a" "c\<lparr>connected_attr := False\<rparr>"]
      by (simp only: loop_failed [OF fail] res_of_prepend first_success.simps if_False)
  qed
qed

lemma loop_calls:
  "init_calls (trace_of (initialize_loop env p a n c)) = attempts_made env a n"
proof (induction n arbitrary: a c)
  case 0
  show ?case by simp
next
  case (Suc n)
  consider (succ) "outcome_at env a = InitSucceeded"
    | (spawn) "outcome_at env a \<noteq> InitSucceeded" "a = 0 \<and> spawned env p"
    | (fail) "outcome_at env a \<noteq> InitSucceeded" "\<not> (a = 0 \<and> spawned env p)"
    by blast
  then show ?case
  proof cases
    case succ
    then show ?thesis
      by (simp only: loop_succeeded parts_triple attempts_made_succeeded) simp
  next
    case spawn
    then have eq: "initialize_loop env p a (Suc n) c =
        prepend [initialize_call p, LogInfo, Spawn (the (p_path p)), LogInfo, Sleep 5]
          (initialize_loop env p (Suc a) n c)"
      using loop_spawned [of env p n c] by simp
    show ?thesis using Suc.IH [of "Suc a" c]
      by (simp add: eq attempts_made_Suc [OF spawn(1)] del: initialize_loop.simps(2))
  next
    case fail
    show ?thesis using Suc.IH [of "Suc a" "c\<lparr>connected_attr := False\<rparr>"] fail(1)
      by (simp add: loop_failed [OF fail] attempts_made_Suc [OF fail(1)]
               del: initialize_loop.simps(2))
  qed
qed

lemma loop_sleeps:
  "a + n = nat (p_retry p) \<Longrightarrow>
   sleeps (trace_of (initialize_loop env p a n c)) =
     (if a = 0 \<and> spawned env p \<and> 0 < n
      then 5 # replicate (attempts_made env a n - 2) (p_retry_delay p)
      else replicate (attempts_made env a n - 1) (p_retry_delay p))"
proof (induction n arbitrary: a c)
  case 0
  show ?case by simp
next
  case (Suc n)
  have next_len: "Suc a + n = nat (p_retry p)" using Suc.prems by simp
  consider (succ) "outcome_at env a = InitSucceeded"
    | (spawn) "outcome_at env a \<noteq> InitSucceeded" "a = 0 \<and> spawned env p"
    | (fail) "outcome_at env a \<noteq> InitSucceeded" "\<not> (a = 0 \<and> spawned env p)"
    by blast
  then show ?case
  proof cases
    case succ
    have ns: "\<not> (a = 0 \<and> spawned env p)" using succ spawned_not_succeeded by blast
    show ?thesis using ns
      by (simp add: loop_succeeded [OF succ] attempts_made_succeeded [OF succ]
               del: initialize_loop.simps(2))
  next
    case spawn
    then have a0: "a = 0" and sp: "spawned env p" by simp_all
    have ns: "outcome_at env 0 \<noteq> InitSucceeded" using spawn(1) a0 by simp
    have ih: "sleeps (trace_of (initialize_loop env p (Suc 0) n c)) =
              replicate (attempts_made env (Suc 0) n - 1) (p_retry_delay p)"
      using Suc.IH [OF next_len, of c] a0 by simp
    show ?thesis unfolding a0 using sp
      by (simp add: loop_spawned [OF sp] ih attempts_made_Suc [OF ns]
               del: initialize_loop.simps(2))
  next
    case fail
    have ih: "sleeps (trace_of (initialize_loop env p (Suc a) n (c\<lparr>connected_attr := False\<rparr>))) =
              replicate (attempts_made env (Suc a) n - 1) (p_retry_delay p)"
      using Suc.IH [OF next_len, of "c\<lparr>connected_attr := False\<rparr>"] by simp
    have cond: "(int a < p_retry p - 1) = (0 < n)"
      using sleep_condition [OF Suc.prems] .
    have lhs: "sleeps (trace_of (initialize_loop env p a (Suc n) c)) =
               (if 0 < n then [p_retry_delay p] else []) @
               replicate (attempts_made env (Suc a) n - 1) (p_retry_delay p)"
      by (simp add: loop_failed [OF fail] ih cond del: initialize_loop.simps(2))
    have rhs: "(if 0 < n then [p_retry_delay p] else []) @
               replicate (attempts_made env (Suc a) n - 1) (p_retry_delay p) =
               replicate (attempts_made env (Suc a) n) (p_retry_delay p)"
    proof (cases "0 < n")
      case True
      from attempts_made_pos [OF True, of env "Suc a"] obtain m where
        m: "attempts_made env (Suc a) n = Suc m" by (cases "attempts_made env (Suc a) n") auto
      show ?thesis using True by (simp add: m)
    next
      case False
      then show ?thesis by simp
    qed
    have no_spawn: "\<not> (a = 0 \<and> spawned env p \<and> 0 < Suc n)" using fail(2) by simp
    have "attempts_made env a (Suc n) - 1 = attempts_made env (Suc a) n"
      by (simp add: attempts_made_Suc [OF fail(1)])
    then show ?thesis by (simp only: no_spawn if_False lhs rhs)
  qed
qed

lemma loop_alternates:
  "a + n = nat (p_retry p) \<Longrightarrow> alternates True (trace_of (initialize_loop env p a n c))"
proof (induction n arbitrary: a c)
  case 0
  show ?case by simp
next
  case (Suc n)
  have next_len: "Suc a + n = nat (p_retry p)" using Suc.prems by simp
  consider (succ) "outcome_at env a = InitSucceeded"
    | (spawn) "outcome_at env a \<noteq> InitSucceeded" "a = 0 \<and> spawned env p"
    | (fail) "outcome_at env a \<noteq> InitSucceeded" "\<not> (a = 0 \<and> spawned env p)"
    by blast
  then show ?case
  proof cases
    case succ
    show ?thesis by (simp add: loop_succeeded [OF succ] del: initialize_loop.simps(2))
  next
    case spawn
    then have eq: "initialize_loop env p a (Suc n) c =
        prepend [initialize_call p, LogInfo, Spawn (the (p_path p)), LogInfo, Sleep 5]
          (initialize_loop env p (Suc a) n c)"
      using loop_spawned [of env p n c] by simp
    show ?thesis using Suc.IH [OF next_len, of c]
      by (simp add: eq del: initialize_loop.simps(2))
  next
    case fail
    have cond: "(int a < p_retry p - 1) = (0 < n)"
      using sleep_condition [OF Suc.prems] .
    have ih: "alternates True
                (trace_of (initialize_loop env p (Suc a) n (c\<lparr>connected_attr := False\<rparr>)))"
      using Suc.IH [OF next_len] .
    show ?thesis
    proof (cases "0 < n")
      case True
      then show ?thesis using ih
        by (simp add: loop_failed [OF fail] cond failed_prefix_alternates [OF fail(1)]
                 del: initialize_loop.simps(2))
    next
      case False
      then have "n = 0" by simp
      then show ?thesis
        using failed_prefix_alternates [OF fail(1), of p "[]"]
        by (simp add: loop_failed [OF fail] cond del: initialize_loop.simps(2))
    qed
  qed
qed

lemma loop_success_conn:
  "first_success env a n = Some i \<Longrightarrow>
   conn_of (initialize_loop env p a n c) =
     c\<lparr>connected_attr := True, login_attr := p_login p, server_attr := p_server p\<rparr>"
proof (induction n arbitrary: a c)
  case 0
  then show ?case by simp
next
  case (Suc n)
  consider (succ) "outcome_at env a = InitSucceeded"
    | (spawn) "outcome_at env a \<noteq> InitSucceeded" "a = 0 \<and> spawned env p"
    | (fail) "outcome_at env a \<noteq> InitSucceeded" "\<not> (a = 0 \<and> spawned env p)"
    by blast
  then show ?case
  proof cases
    case succ
    show ?thesis by (simp add: loop_succeeded [OF succ] del: initialize_loop.simps(2))
  next
    case spawn
    then have a0: "a = 0" and sp: "spawned env p" by simp_all
    have rest: "first_success env (Suc 0) n = Some i" using Suc.prems spawn(1) a0 by simp
    show ?thesis unfolding a0 using Suc.IH [OF rest, of c]
      by (simp add: loop_spawned [OF sp] del: initialize_loop.simps(2))
  next
    case fail
    have rest: "first_success env (Suc a) n = Some i" using Suc.prems fail(1) by simp
    show ?thesis using Suc.IH [OF rest, of "c\<lparr>connected_attr := False\<rparr>"]
      by (simp add: loop_failed [OF fail] del: initialize_loop.simps(2))
  qed
qed

lemma loop_failure_conn:
  "first_success env a n = None \<Longrightarrow>
   conn_of (initialize_loop env p a n c) =
     (if n = 0 \<or> (a = 0 \<and> spawned env p \<and> n = 1) then c else c\<lparr>connected_attr := False\<rparr>)"
proof (induction n arbitrary: a c)
  case 0
  then show ?case by simp
next
  case (Suc n)
  have ns: "outcome_at env a \<noteq> InitSucceeded" using Suc.prems by (auto split: if_splits)
  have rest: "first_success env (Suc a) n = None" using Suc.prems ns by simp
  consider (spawn) "a = 0 \<and> spawned env p" | (fail) "\<not> (a = 0 \<and> spawned env p)"
    by blast
  then show ?case
  proof cases
    case spawn
    then have a0: "a = 0" and sp: "spawned env p" by simp_all
    show ?thesis unfolding a0 using Suc.IH [OF rest [unfolded a0], of c] sp
      by (simp add: loop_spawned [OF sp] del: initialize_loop.simps(2))
  next
    case fail
    show ?thesis using Suc.IH [OF rest, of "c\<lparr>connected_attr := False\<rparr>"] fail
      by (auto simp add: loop_failed [OF ns fail] simp del: initialize_loop.simps(2))
  qed
qed

lemma loop_trace_independent:
  "trace_of (initialize_loop env p a n c1) = trace_of (initialize_loop env p a n c2)"
proof (induction n arbitrary: a c1 c2)
  case 0
  show ?case by simp
next
  case (Suc n)
  consider (succ) "outcome_at env a = InitSucceeded"
    | (spawn) "outcome_at env a \<noteq> InitSucceeded" "a = 0 \<and> spawned env p"
    | (fail) "outcome_at env a \<noteq> InitSucceeded" "\<not> (a = 0 \<and> spawned env p)"
    by blast
  then show ?case
  proof cases
    case succ
    show ?thesis by (simp add: loop_succeeded [OF succ] del: initialize_loop.simps(2))
  next
    case spawn
    then have a0: "a = 0" and sp: "spawned env p" by simp_all
    show ?thesis unfolding a0 using Suc.IH [of "Suc 0" c1 c2]
      by (simp add: loop_spawned [OF sp] del: initialize_loop.simps(2))
  next
    case fail
    show ?thesis
      using Suc.IH [of "Suc a" "c1\<lparr>connected_attr := False\<rparr>" "c2\<lparr>connected_attr := False\<rparr>"]
      by (simp add: loop_failed [OF fail] del: initialize_loop.simps(2))
  qed
qed

lemma first_success_least:
  assumes "i < n" "outcome_at env i = InitSucceeded"
    and "\<forall>j<i. outcome_at env j \<noteq> InitSucceeded"
  shows "first_success env 0 n = Some i"
proof (cases "first_success env 0 n")
  case None
  then show ?thesis using assms(1,2) first_success_None [of env 0 n] by auto
next
  case (Some k)
  from first_success_Some [OF Some] have k: "k < n" "outcome_at env k = InitSucceeded"
    "\<forall>j. j < k \<longrightarrow> outcome_at env j \<noteq> InitSucceeded" by auto
  have "\<not> k < i" using assms(3) k(2) by blast
  moreover have "\<not> i < k" using k(3) assms(2) by blast
  ultimately show ?thesis using Some by simp
qed

lemma initialize_flag:
  "connected_attr (conn_of (initialize env p c)) \<longleftrightarrow>
     res_of (initialize env p c) = Inr True \<or>
     (connected_attr c \<and> (nat (p_retry p) = 0 \<or> (spawned env p \<and> nat (p_retry p) = 1)))"
proof (cases "first_success env 0 (nat (p_retry p))")
  case None
  have r: "res_of (initialize env p c) = Inl (MT5ConnectionError None)"
    by (simp add: initialize_def loop_result None)
  show ?thesis unfolding r
    by (auto simp: initialize_def loop_failure_conn [OF None])
next
  case (Some i)
  have r: "res_of (initialize env p c) = Inr True"
    by (simp add: initialize_def loop_result Some)
  show ?thesis unfolding r
    by (simp add: initialize_def loop_success_conn [OF Some])
qed

subsection \<open>Claim C2\<close>

lemma example_run:
  "initialize example_env example_params new_connection =
     (Inr True,
      \<lparr>connected_attr = True, login_attr = Some 12345678, server_attr = Some ''Demo''\<rparr>,
      [initialize_call example_params, LogInfo, Spawn ''terminal64.exe'', LogInfo, Sleep 5,
       initialize_call example_params, LogWarning, Sleep 2,
       initialize_call example_params, LogInfo])"
  by (simp add: initialize_def example_env_def example_params_def new_connection_def
        numeral_3_eq_3 path_given_def prepend_def)



subsection \<open>Claim C4\<close>




section \<open>Properties of manager/account\_manager.py\<close>

lemma state_of_triple [simp]: "state_of (x, s, tr) = s"
  by (simp add: state_of_def)

lemma add_account_cases:
  "(\<exists>tr. add_account env m name lg password sv path auto_connect = (False, m, tr)) \<or>
   (map_of (accounts m) name = None \<and>
    (\<exists>client tr. add_account env m name lg password sv path auto_connect =
       (True, store_account m name client, tr)))"
proof (cases "map_of (accounts m) name = None")
  case False
  then show ?thesis by (simp add: add_account_def)
next
  case True
  show ?thesis
  proof (cases auto_connect)
    case False
    then have "add_account env m name lg password sv path auto_connect =
                 (True, store_account m name new_connection, [LogInfo])"
      using True by (simp add: add_account_def)
    then show ?thesis using True by blast
  next
    case ac: True
    obtain r client tr where run:
      "emt5_initialize env path lg password sv new_connection = (r, client, tr)"
      by (cases "emt5_initialize env path lg password sv new_connection") auto
    show ?thesis
    proof (cases r)
      case (Inl e)
      then show ?thesis using True ac run by (simp add: add_account_def)
    next
      case (Inr b)
      show ?thesis
      proof (cases b)
        case True
        then have "add_account env m name lg password sv path auto_connect =
                     (True, store_account m name client, tr @ [LogInfo])"
          using \<open>map_of (accounts m) name = None\<close> ac run Inr by (simp add: add_account_def)
        then show ?thesis using \<open>map_of (accounts m) name = None\<close> by blast
      next
        case False
        then show ?thesis using \<open>map_of (accounts m) name = None\<close> ac run Inr
          by (simp add: add_account_def)
      qed
    qed
  qed
qed

lemma remove_account_absent:
  "map_of (accounts m) name = None \<Longrightarrow> remove_account m name = (False, m, [LogError])"
  by (simp add: remove_account_def)

lemma remove_account_present:
  "map_of (accounts m) name = Some client \<Longrightarrow>
   remove_account m name =
     (True,
      m\<lparr>accounts := AList.delete name (accounts m),
        current_account := (if current_account m = Some name
                            then first_key (AList.delete name (accounts m))
                            else current_account m)\<rparr>,
      snd (shutdown client) @ [LogInfo])"
  by (simp add: remove_account_def Let_def)

lemma first_key_member:
  "first_key al = Some k \<Longrightarrow> k \<in> fst ` set al"
  by (cases al) (auto simp: first_key_def)

lemma first_key_none: "first_key al = None \<longleftrightarrow> al = []"
  by (cases al) (auto simp: first_key_def)

lemma store_account_invariant:
  "manager_invariant m \<Longrightarrow> manager_invariant (store_account m name client)"
proof -
  assume inv: "manager_invariant m"
  have keys: "fst ` set (AList.update name client (accounts m)) = {name} \<union> fst ` set (accounts m)"
    by (rule dom_update)
  have ne: "AList.update name client (accounts m) \<noteq> []"
    using keys by auto
  show ?thesis
  proof (cases "current_account m")
    case None
    then show ?thesis using ne keys by (simp add: manager_invariant_def store_account_def)
  next
    case (Some cur)
    then have "cur \<in> fst ` set (accounts m)" using inv by (simp add: manager_invariant_def)
    then show ?thesis using Some ne keys by (simp add: manager_invariant_def store_account_def)
  qed
qed

lemma delete_key_set: "fst ` set (AList.delete name al) = fst ` set al - {name}"
  by (induction al) auto

lemma remove_account_invariant:
  assumes inv: "manager_invariant m"
  shows "manager_invariant (state_of (remove_account m name))"
proof (cases "map_of (accounts m) name")
  case None
  then show ?thesis using inv by (simp add: remove_account_absent)
next
  case (Some client)
  let ?rest = "AList.delete name (accounts m)"
  show ?thesis
  proof (cases "current_account m = Some name")
    case True
    have "manager_invariant (m\<lparr>accounts := ?rest, current_account := first_key ?rest\<rparr>)"
    proof (cases "first_key ?rest")
      case None
      then have "?rest = []" by (simp add: first_key_none)
      then show ?thesis using None by (simp add: manager_invariant_def)
    next
      case (Some k)
      have "?rest \<noteq> []" using Some first_key_none [of ?rest] by auto
      then show ?thesis using Some first_key_member [OF Some]
        by (simp add: manager_invariant_def)
    qed
    then show ?thesis using True Some by (simp add: remove_account_present)
  next
    case False
    show ?thesis
    proof (cases "current_account m")
      case None
      then have "accounts m = []" using inv by (simp add: manager_invariant_def)
      then show ?thesis using Some by simp
    next
      case cur: (Some k)
      then have k: "k \<in> fst ` set (accounts m)" "k \<noteq> name"
        using inv False by (simp_all add: manager_invariant_def)
      then have "k \<in> fst ` set ?rest" by (simp add: delete_key_set)
      moreover from this have "?rest \<noteq> []" by auto
      ultimately show ?thesis using cur False Some
        by (simp add: remove_account_present manager_invariant_def)
    qed
  qed
qed

lemma switch_account_invariant:
  assumes inv: "manager_invariant m"
  shows "manager_invariant (state_of (switch_account m name))"
proof (cases "map_of (accounts m) name")
  case None
  then show ?thesis using inv by (simp add: switch_account_def)
next
  case (Some client)
  then have "name \<in> fst ` set (accounts m)"
    by (metis domI dom_map_of_conv_image_fst)
  moreover from this have "accounts m \<noteq> []" by auto
  ultimately show ?thesis using Some by (simp add: switch_account_def manager_invariant_def)
qed

lemma add_account_invariant:
  assumes inv: "manager_invariant m"
  shows "manager_invariant (state_of (add_account env m name lg password sv path auto_connect))"
  using add_account_cases [of env m name lg password sv path auto_connect]
        inv store_account_invariant [OF inv]
  by auto

lemma reachable_invariant: "reachable m \<Longrightarrow> manager_invariant m"
proof (induction rule: reachable.induct)
  case fresh
  show ?case by (simp add: manager_invariant_def new_manager_def)
next
  case (added m env name lg password sv path auto_connect)
  then show ?case using add_account_invariant by blast
next
  case (removed m name)
  then show ?case using remove_account_invariant by blast
next
  case (switched m name)
  then show ?case using switch_account_invariant by blast
qed

lemma manager_ab_value:
  "manager_ab =
     \<lparr>accounts = [(''a'', new_connection), (''b'', new_connection)],
      current_account = Some ''a''\<rparr>"
  by (simp add: manager_ab_def add_account_def store_account_def new_manager_def)

lemma manager_b_value:
  "manager_b = \<lparr>accounts = [(''b'', new_connection)], current_account = Some ''b''\<rparr>"
  by (simp add: manager_b_def manager_ab_value remove_account_def first_key_def)

subsection \<open>Claim C8\<close>

text \<open>
  C8: every method of the manager is one step under the lock, and a failed operation
  leaves the state as it was. \<open>add_account\<close> with an alias already in the table returns
  \<open>False\<close> and changes neither the table nor the selection, and so does every
  \<open>add_account\<close> that returns \<open>False\<close>; \<open>remove_account\<close> with an absent alias returns \<open>False\<close>
  and changes nothing. A successful \<open>remove_account\<close> deletes exactly the named entry,
  keeps the selection when another account was current, and otherwise selects one of the
  remaining accounts (the first), or \<open>None\<close> when none remain.
\<close>

theorem manager_operations:
  "(map_of (accounts m) name \<noteq> None \<longrightarrow>
      res_of (add_account env m name lg password sv path auto_connect) = False \<and>
      state_of (add_account env m name lg password sv path auto_connect) = m) \<and>
   (res_of (add_account env m name lg password sv path auto_connect) = False \<longrightarrow>
      state_of (add_account env m name lg password sv path auto_connect) = m) \<and>
   (map_of (accounts m) name = None \<longrightarrow>
      res_of (remove_account m name) = False \<and> state_of (remove_account m name) = m) \<and>
   (map_of (accounts m) name \<noteq> None \<longrightarrow>
      res_of (remove_account m name) = True \<and>
      accounts (state_of (remove_account m name)) =
        filter (\<lambda>(k, v). name \<noteq> k) (accounts m) \<and>
      map_of (accounts (state_of (remove_account m name))) = (map_of (accounts m))(name := None) \<and>
      (current_account m \<noteq> Some name \<longrightarrow>
         current_account (state_of (remove_account m name)) = current_account m) \<and>
      (current_account m = Some name \<longrightarrow>
         (accounts (state_of (remove_account m name)) = [] \<and>
          current_account (state_of (remove_account m name)) = None) \<or>
         (\<exists>k. current_account (state_of (remove_account m name)) = Some k \<and>
              k \<in> fst ` set (accounts (state_of (remove_account m name))))))"
proof -
  let ?add = "add_account env m name lg password sv path auto_connect"
  let ?rm = "remove_account m name"
  have p1: "res_of ?add = False \<and> state_of ?add = m" if "map_of (accounts m) name \<noteq> None"
    using that by (simp add: add_account_def)
  have p2: "state_of ?add = m" if "res_of ?add = False"
    using that add_account_cases [of env m name lg password sv path auto_connect] by auto
  have p3: "res_of ?rm = False \<and> state_of ?rm = m" if "map_of (accounts m) name = None"
    using that by (simp add: remove_account_absent)
  have p4: "res_of ?rm = True \<and>
      accounts (state_of ?rm) = filter (\<lambda>(k, v). name \<noteq> k) (accounts m) \<and>
      map_of (accounts (state_of ?rm)) = (map_of (accounts m))(name := None) \<and>
      (current_account m \<noteq> Some name \<longrightarrow> current_account (state_of ?rm) = current_account m) \<and>
      (current_account m = Some name \<longrightarrow>
         (accounts (state_of ?rm) = [] \<and> current_account (state_of ?rm) = None) \<or>
         (\<exists>k. current_account (state_of ?rm) = Some k \<and> k \<in> fst ` set (accounts (state_of ?rm))))"
    if "map_of (accounts m) name \<noteq> None"
  proof -
    from that obtain client where cl: "map_of (accounts m) name = Some client" by blast
    note run = remove_account_present [OF cl]
    have q1: "res_of ?rm = True" by (simp add: run)
    have q2: "accounts (state_of ?rm) = filter (\<lambda>(k, v). name \<noteq> k) (accounts m)"
      by (simp add: run AList.delete_eq)
    have q3: "map_of (accounts (state_of ?rm)) = (map_of (accounts m))(name := None)"
      by (simp add: run delete_conv')
    have q4: "current_account (state_of ?rm) = current_account m"
      if "current_account m \<noteq> Some name"
      using that by (simp add: run)
    have q5: "(accounts (state_of ?rm) = [] \<and> current_account (state_of ?rm) = None) \<or>
         (\<exists>k. current_account (state_of ?rm) = Some k \<and> k \<in> fst ` set (accounts (state_of ?rm)))"
      if cur: "current_account m = Some name"
    proof (cases "first_key (AList.delete name (accounts m))")
      case None
      then have "AList.delete name (accounts m) = []" by (simp add: first_key_none)
      then show ?thesis using cur None by (simp add: run)
    next
      case (Some k)
      from first_key_member [OF Some] show ?thesis using cur Some by (simp add: run)
    qed
    show ?thesis using q1 q2 q3 q4 q5 by blast
  qed
  show ?thesis using p1 p2 p3 p4 by blast
qed

theorem manager_operations_witness:
  "map_of (accounts manager_ab) ''a'' \<noteq> None \<and>
   map_of (accounts manager_ab) ''c'' = None \<and>
   current_account manager_ab = Some ''a'' \<and>
   state_of (add_account example_env manager_ab ''a'' 3 ''pw'' ''Demo'' None True) = manager_ab \<and>
   state_of (remove_account manager_ab ''c'') = manager_ab \<and>
   accounts (state_of (remove_account manager_ab ''a'')) = [(''b'', new_connection)] \<and>
   current_account (state_of (remove_account manager_ab ''a'')) = Some ''b''"
proof -
  have h1: "map_of (accounts manager_ab) ''a'' \<noteq> None" by (simp add: manager_ab_value)
  have h2: "map_of (accounts manager_ab) ''c'' = None" by (simp add: manager_ab_value)
  have h3: "current_account manager_ab = Some ''a''" by (simp add: manager_ab_value)
  have r1: "state_of (add_account example_env manager_ab ''a'' 3 ''pw'' ''Demo'' None True)
            = manager_ab"
    using manager_operations [of manager_ab "''a''" example_env 3 "''pw''" "''Demo''" None True] h1
    by blast
  have r2: "state_of (remove_account manager_ab ''c'') = manager_ab"
    using manager_operations [of manager_ab "''c''" example_env 3 "''pw''" "''Demo''" None True] h2
    by blast
  have r3: "accounts (state_of (remove_account manager_ab ''a'')) = [(''b'', new_connection)] \<and>
            current_account (state_of (remove_account manager_ab ''a'')) = Some ''b''"
    using manager_b_value by (simp add: manager_b_def)
  show ?thesis using h1 h2 h3 r1 r2 r3 by blast
qed

subsection \<open>Claim C9\<close>

text \<open>
  C9: in every state that a fresh manager reaches by \<open>add_account\<close>, \<open>remove_account\<close> and
  \<open>switch_account\<close> calls, \<open>current_account\<close> is \<open>None\<close> exactly when the table is empty, and a
  current account is always a key of the table. In particular a successful \<open>add_account\<close>
  on a reachable state with an empty table makes the new account the current one.
\<close>

theorem manager_current_account:
  "reachable m \<longrightarrow>
     (current_account m = None \<longleftrightarrow> accounts m = []) \<and>
     (\<forall>cur. current_account m = Some cur \<longrightarrow> cur \<in> fst ` set (accounts m)) \<and>
     (accounts m = [] \<and> res_of (add_account env m name lg password sv path auto_connect) = True
        \<longrightarrow> current_account (state_of (add_account env m name lg password sv path auto_connect))
              = Some name)"
proof
  assume r: "reachable m"
  from reachable_invariant [OF r] have inv: "manager_invariant m" .
  have c1: "current_account m = None \<longleftrightarrow> accounts m = []"
    using inv by (simp add: manager_invariant_def)
  have c2: "\<forall>cur. current_account m = Some cur \<longrightarrow> cur \<in> fst ` set (accounts m)"
    using inv by (auto simp: manager_invariant_def)
  have c3: "current_account (state_of (add_account env m name lg password sv path auto_connect))
              = Some name"
    if "accounts m = [] \<and> res_of (add_account env m name lg password sv path auto_connect) = True"
  proof -
    from that c1 have none: "current_account m = None" by simp
    from that add_account_cases [of env m name lg password sv path auto_connect]
    obtain client tr where "add_account env m name lg password sv path auto_connect =
       (True, store_account m name client, tr)" by auto
    then show ?thesis using none by (simp add: store_account_def)
  qed
  show "(current_account m = None \<longleftrightarrow> accounts m = []) \<and>
     (\<forall>cur. current_account m = Some cur \<longrightarrow> cur \<in> fst ` set (accounts m)) \<and>
     (accounts m = [] \<and> res_of (add_account env m name lg password sv path auto_connect) = True
        \<longrightarrow> current_account (state_of (add_account env m name lg password sv path auto_connect))
              = Some name)"
    using c1 c2 c3 by blast
qed

theorem manager_current_account_witness:
  "reachable manager_b \<and>
   current_account manager_b = Some ''b'' \<and>
   ''b'' \<in> fst ` set (accounts manager_b) \<and>
   accounts manager_b \<noteq> []"
proof -
  have "reachable manager_ab"
    unfolding manager_ab_def by (intro reachable.added reachable.fresh)
  then have r: "reachable manager_b"
    unfolding manager_b_def by (rule reachable.removed)
  have cur: "current_account manager_b = Some ''b''" by (simp add: manager_b_value)
  have mem: "''b'' \<in> fst ` set (accounts manager_b)"
    using manager_current_account [of manager_b example_env "''c''" 3 "''pw''" "''Demo''" None False]
          r cur
    by blast
  then have "accounts manager_b \<noteq> []" by auto
  then show ?thesis using r cur mem by blast
qed

section \<open>Properties of info/account.py\<close>

subsection \<open>Claim C6\<close>




section \<open>Properties of trade/executor.py\<close>

lemma send_disconnected:
  "conn = None \<or> (\<exists>c. conn = Some c \<and> \<not> is_connected c) \<Longrightarrow>
   send env conn request = (Inr None, [LogError])"
  by (auto simp: send_def require_connection_def)

lemma send_connected:
  "conn = Some c \<Longrightarrow> is_connected c \<Longrightarrow> send env conn request = send_body env request"
  by (simp add: send_def require_connection_def)

lemma send_body_errors:
  "fst (send_body env request) = Inl e \<Longrightarrow>
   e = MT5ValidationError \<or> (\<exists>code. e = MT5OrderError code)"
  by (auto simp: send_body_def Let_def
           split: if_splits ext.splits pyobj.splits option.splits sum.splits)

lemma send_body_record:
  assumes d: "is_dict request"
    and r: "order_send env request = Returned (PNamedTuple fs)"
    and wf: "result_record fs"
  shows "\<exists>result_dict.
           add_datetime_fields (Some (convert_nested_request fs)) send_time_fields ''_dt''
             = Inr (Some result_dict) \<and>
           send_body env request =
             (Inr (Some result_dict),
              ExtCall ''order_send'' [request] [] #
              (if differs_from (the (map_of fs ''retcode'')) TRADE_RETCODE_DONE
               then [LogWarning, LogWarning] else []))"
proof -
  from wf obtain retcode where rc: "map_of fs ''retcode'' = Some retcode"
    by (auto simp: result_record_def split: option.splits)
  from wf rc have cm: "differs_from retcode TRADE_RETCODE_DONE \<longrightarrow> map_of fs ''comment'' \<noteq> None"
    by (simp add: result_record_def)
  from wf have nf: "numeric_fields (convert_nested_request fs) send_time_fields"
    by (simp add: result_record_def)
  have nl: "no_listed_companion send_time_fields ''_dt''"
    by (simp add: no_listed_companion_def send_time_fields_def)
  from add_fields_loop_returns [OF nf nl] obtain dd where
    dd: "add_fields_loop (convert_nested_request fs) send_time_fields ''_dt'' = Inr dd"
    by blast
  then have adf: "add_datetime_fields (Some (convert_nested_request fs)) send_time_fields ''_dt''
                  = Inr (Some dd)"
    by (simp add: add_datetime_fields_def)
  have "send_body env request =
             (Inr (Some dd),
              ExtCall ''order_send'' [request] [] #
              (if differs_from retcode TRADE_RETCODE_DONE then [LogWarning, LogWarning] else []))"
    using d r rc cm adf by (auto simp: send_body_def Let_def)
  then show ?thesis using adf rc by simp
qed

subsection \<open>Claim C3\<close>


lemma rejecting_run:
  "send rejecting_env (Some connected_connection) example_request =
     (Inr (Some [(''retcode'', PInt 10006), (''order'', PInt 0), (''comment'', PStr ''Reject''),
                 (''request'', PDict [(''symbol'', PStr ''EURUSD'')])]),
      [ExtCall ''order_send'' [example_request] [], LogWarning, LogWarning])"
  by (simp add: send_def require_connection_def send_body_def rejecting_env_def
        example_request_def example_result_def connected_connection_def is_connected_def
        differs_from_def TRADE_RETCODE_DONE_def convert_nested_request_def
        add_datetime_fields_def send_time_fields_def)


section \<open>Properties of trade/calculator.py\<close>

lemma lower_buy: "lower ''buy'' = ''buy''"
  by (simp add: lower_def lower_char_def)

lemma example_position_size:
  "calc_position_size example_constants example_calc_env connected_connection
       ''EURUSD'' 100 2 1 ''buy''
     = (Some 2,
        [ExtCall ''order_calc_profit'' [PInt 0, PStr ''EURUSD'', PFloat 1, PFloat 2, PFloat 1] [],
         ExtCall ''symbol_info'' [PStr ''EURUSD''] []])"
  by (simp add: calc_position_size_def calc_profit_def profit_order_type_def lower_buy
        example_constants_def example_calc_env_def connected_connection_def is_connected_def
        adjust_volume_def py_round2_def round_half_even_def)

lemma example_risk_reward:
  "calc_calls (snd (calc_risk_reward example_constants example_calc_env connected_connection
       ''EURUSD'' 1 2 1 3 ''buy'')) = 2"
  by (simp add: calc_risk_reward_def calc_profit_def profit_order_type_def lower_buy
        example_constants_def example_calc_env_def connected_connection_def is_connected_def
        calc_calls_def)

lemma calc_calls_simps [simp]:
  "calc_calls [] = 0"
  "calc_calls (LogError # tr) = calc_calls tr"
  "calc_calls (ExtCall ''order_calc_margin'' args kw # tr) = Suc (calc_calls tr)"
  "calc_calls (ExtCall ''order_calc_profit'' args kw # tr) = Suc (calc_calls tr)"
  "calc_calls (ExtCall ''last_error'' args kw # tr) = calc_calls tr"
  "calc_calls (ExtCall ''symbol_info_tick'' args kw # tr) = calc_calls tr"
  "calc_calls (ExtCall ''symbol_info'' args kw # tr) = calc_calls tr"
  by (simp_all add: calc_calls_def)

lemma calc_calls_append [simp]: "calc_calls (xs @ ys) = calc_calls xs + calc_calls ys"
  by (simp add: calc_calls_def)

lemma margin_price_calls: "calc_calls (snd (margin_price env symbol action price)) = 0"
  by (simp add: margin_price_def split: option.splits ext.splits)

lemma calc_profit_disconnected:
  "\<not> is_connected c \<Longrightarrow>
   calc_profit K env c symbol volume price_open price_close action = (None, [LogError])"
  by (simp add: calc_profit_def)

lemma calc_margin_disconnected:
  "\<not> is_connected c \<Longrightarrow> calc_margin K env c symbol volume action price = (None, [LogError])"
  by (simp add: calc_margin_def)

lemma calc_profit_calls:
  "calc_calls (snd (calc_profit K env c symbol volume price_open price_close action)) =
     (if is_connected c \<and> profit_order_type K action \<noteq> None then 1 else 0)"
  by (simp add: calc_profit_def Let_def split: option.splits ext.splits)

lemma calc_profit_some:
  "fst (calc_profit K env c symbol volume price_open price_close action) = Some y \<longleftrightarrow>
     is_connected c \<and>
     (\<exists>ot. profit_order_type K action = Some ot \<and>
           order_calc_profit env ot symbol volume price_open price_close = Returned (Some y))"
  by (auto simp: calc_profit_def Let_def split: option.splits ext.splits)

lemma calc_margin_calls:
  "calc_calls (snd (calc_margin K env c symbol volume action price)) \<le> 1"
proof -
  obtain p tr where mp: "margin_price env symbol action price = (p, tr)"
    by (cases "margin_price env symbol action price") auto
  have z: "calc_calls tr = 0" using margin_price_calls [of env symbol action price] mp by simp
  show ?thesis
    by (simp add: calc_margin_def mp z Let_def split: option.splits ext.splits)
qed

lemma calc_margin_some:
  "fst (calc_margin K env c symbol volume action price) = Some x \<longleftrightarrow>
     is_connected c \<and>
     (\<exists>ot p. get_order_type K action = Some ot \<and>
             fst (margin_price env symbol action price) = Some p \<and>
             order_calc_margin env ot symbol volume p = Returned (Some x))"
proof -
  obtain p tr where mp: "margin_price env symbol action price = (p, tr)"
    by (cases "margin_price env symbol action price") auto
  show ?thesis
    by (auto simp: calc_margin_def mp Let_def split: option.splits ext.splits)
qed

lemma calc_position_size_value:
  "fst (calc_position_size K env c symbol risk_amount entry_price sl_price action) =
     (case fst (calc_profit K env c symbol 1 entry_price sl_price action) of
        None \<Rightarrow> None
      | Some loss \<Rightarrow>
          if loss = 0 then None
          else Some (py_round2 (adjust_volume (calc_symbol_info env symbol)
                                  (risk_amount / \<bar>loss\<bar>))))"
proof -
  obtain r tr where cp: "calc_profit K env c symbol 1 entry_price sl_price action = (r, tr)"
    by (cases "calc_profit K env c symbol 1 entry_price sl_price action") auto
  show ?thesis by (simp add: calc_position_size_def cp Let_def split: option.splits)
qed

lemma calc_position_size_calls:
  "calc_calls (snd (calc_position_size K env c symbol risk_amount entry_price sl_price action)) =
   calc_calls (snd (calc_profit K env c symbol 1 entry_price sl_price action))"
proof -
  obtain r tr where cp: "calc_profit K env c symbol 1 entry_price sl_price action = (r, tr)"
    by (cases "calc_profit K env c symbol 1 entry_price sl_price action") auto
  show ?thesis by (simp add: calc_position_size_def cp Let_def split: option.splits)
qed

lemma calc_risk_reward_calls:
  "calc_calls (snd (calc_risk_reward K env c symbol volume entry_price sl_price tp_price action))
     \<le> 2 \<and>
   (fst (calc_risk_reward K env c symbol volume entry_price sl_price tp_price action) \<noteq> None
      \<longrightarrow> calc_calls (snd (calc_risk_reward K env c symbol volume entry_price sl_price tp_price
                              action)) = 2)"
proof -
  obtain r1 tr1 where c1: "calc_profit K env c symbol volume entry_price sl_price action = (r1, tr1)"
    by (cases "calc_profit K env c symbol volume entry_price sl_price action") auto
  obtain r2 tr2 where c2: "calc_profit K env c symbol volume entry_price tp_price action = (r2, tr2)"
    by (cases "calc_profit K env c symbol volume entry_price tp_price action") auto
  have n1: "calc_calls tr1 = (if is_connected c \<and> profit_order_type K action \<noteq> None then 1 else 0)"
    using calc_profit_calls [of K env c symbol volume entry_price sl_price action] c1 by simp
  have n2: "calc_calls tr2 = (if is_connected c \<and> profit_order_type K action \<noteq> None then 1 else 0)"
    using calc_profit_calls [of K env c symbol volume entry_price tp_price action] c2 by simp
  have s1: "r1 \<noteq> None \<longrightarrow> is_connected c \<and> profit_order_type K action \<noteq> None"
    using calc_profit_some [of K env c symbol volume entry_price sl_price action] c1 by auto
  show ?thesis using s1
    by (auto simp: calc_risk_reward_def c1 c2 n1 n2 Let_def split: option.splits)
qed

subsection \<open>Claim C5\<close>




section \<open>Properties of trade/request\_builder.py\<close>

lemmas builder_method_defs =
  market_buy_def market_sell_def pending_def limit_buy_def limit_sell_def stop_buy_def
  stop_sell_def with_sl_def with_tp_def with_sl_tp_def with_deviation_def with_magic_def
  with_comment_def get_ask_price_def get_bid_price_def

lemma invoke_returns_self:
  "fst (invoke K env self call h) = Inr r \<Longrightarrow> r = self"
  by (cases call) (auto simp: builder_method_defs Let_def split: option.splits)

lemma invoke_frame:
  "other \<noteq> self \<Longrightarrow> snd (invoke K env self call h) other = h other"
  by (cases call) (auto simp: builder_method_defs Let_def split: option.splits)

lemma invoke_total:
  "\<not> is_market_call call \<Longrightarrow> fst (invoke K env self call h) = Inr self"
  by (cases call) (auto simp: builder_method_defs)

lemma invoke_market:
  "is_market_call call \<Longrightarrow>
   fst (invoke K env self call h) =
     (if symbol_info_tick env (b_symbol (h self)) = None then Inl ValueError else Inr self)"
  by (cases call) (auto simp: builder_method_defs Let_def split: option.splits)

lemma invoke_sets_order:
  "is_order_call call \<Longrightarrow>
   b_action (snd (invoke K env self call h) self) \<noteq> None \<and>
   b_order_type (snd (invoke K env self call h) self) \<noteq> None \<and>
   b_volume (snd (invoke K env self call h) self) = call_volume call"
  by (cases call) (auto simp: builder_method_defs Let_def split: option.splits)

lemma invoke_keeps_order:
  "b_action (h self) \<noteq> None \<Longrightarrow> b_order_type (h self) \<noteq> None \<Longrightarrow>
   b_action (snd (invoke K env self call h) self) \<noteq> None \<and>
   b_order_type (snd (invoke K env self call h) self) \<noteq> None"
  by (cases call) (auto simp: builder_method_defs Let_def split: option.splits)

lemma build_request:
  assumes "b_action (h self) = Some a" "b_order_type (h self) = Some t"
  shows "build K env self h =
     Inr ([(''action'', PInt a), (''symbol'', PStr (b_symbol (h self))),
           (''volume'', PFloat (b_volume (h self))), (''type'', PInt t),
           (''price'', PFloat (b_price (h self))), (''sl'', PFloat (b_sl (h self))),
           (''tp'', PFloat (b_tp (h self))), (''deviation'', PInt (b_deviation (h self))),
           (''magic'', PInt (b_magic (h self))), (''comment'', PStr (b_comment (h self))),
           (''type_time'', PInt (ORDER_TIME_GTC K)),
           (''type_filling'', PInt (get_filling_mode K env (h self)))] @
          (if b_position (h self) > 0 then [(''position'', PInt (b_position (h self)))] else []))"
  using assms by (simp add: build_def Let_def)

lemma build_raises:
  "b_action (h self) = None \<or> b_order_type (h self) = None \<Longrightarrow>
   build K env self h = Inl ValueError"
  by (auto simp: build_def Let_def split: option.splits)

lemma build_returns:
  "b_action (h self) \<noteq> None \<Longrightarrow> b_order_type (h self) \<noteq> None \<Longrightarrow>
   \<exists>d. build K env self h = Inr d"
proof -
  assume "b_action (h self) \<noteq> None" "b_order_type (h self) \<noteq> None"
  then obtain a t where "b_action (h self) = Some a" "b_order_type (h self) = Some t" by auto
  from build_request [of h self a t K env, OF this] show ?thesis by blast
qed

lemma build_after_with:
  assumes w: "\<not> is_order_call call" and b: "build K env self h = Inr d"
  shows "build K env self (snd (invoke K env self call h)) =
           Inr (fold (\<lambda>(k, v). AList.update k v) (with_entries call) d)"
proof -
  from b obtain a t where at: "b_action (h self) = Some a" "b_order_type (h self) = Some t"
    by (auto simp: build_def Let_def split: option.splits)
  have d: "d = [(''action'', PInt a), (''symbol'', PStr (b_symbol (h self))),
           (''volume'', PFloat (b_volume (h self))), (''type'', PInt t),
           (''price'', PFloat (b_price (h self))), (''sl'', PFloat (b_sl (h self))),
           (''tp'', PFloat (b_tp (h self))), (''deviation'', PInt (b_deviation (h self))),
           (''magic'', PInt (b_magic (h self))), (''comment'', PStr (b_comment (h self))),
           (''type_time'', PInt (ORDER_TIME_GTC K)),
           (''type_filling'', PInt (get_filling_mode K env (h self)))] @
          (if b_position (h self) > 0 then [(''position'', PInt (b_position (h self)))] else [])"
    using b at build_request [of h self a t K env] by simp
  show ?thesis
    using w at unfolding d
    by (cases call)
       (simp_all add: build_def Let_def builder_method_defs get_filling_mode_def)
qed

lemma example_chain:
  "then_call (then_call (invoke example_constants quoting_env 0 (MarketBuy 3) fresh_store)
                (\<lambda>obj. with_sl obj 1))
     (\<lambda>obj. with_magic obj 42)
   = (Inr 0,
      fresh_store(0 := (init_builder ''EURUSD'' counting_executor 7)
        \<lparr>b_action := Some 1, b_order_type := Some 0, b_volume := 3, b_price := 2,
         b_sl := 1, b_magic := 42\<rparr>))"
  by (simp add: then_call_def market_buy_def with_sl_def with_magic_def get_ask_price_def
        quoting_env_def fresh_store_def example_constants_def init_builder_def Let_def)

lemma example_build:
  "build example_constants quoting_env 0
     (fresh_store(0 := (init_builder ''EURUSD'' counting_executor 7)
        \<lparr>b_action := Some 1, b_order_type := Some 0, b_volume := 3, b_price := 2,
         b_sl := 1, b_magic := 42\<rparr>))
   = Inr [(''action'', PInt 1), (''symbol'', PStr ''EURUSD''), (''volume'', PFloat 3),
          (''type'', PInt 0), (''price'', PFloat 2), (''sl'', PFloat 1), (''tp'', PFloat 0),
          (''deviation'', PInt 20), (''magic'', PInt 42), (''comment'', PStr []),
          (''type_time'', PInt 0), (''type_filling'', PInt 0)]"
  by (simp add: build_def Let_def init_builder_def get_filling_mode_def quoting_env_def
        example_constants_def)

subsection \<open>Claim C1\<close>



subsection \<open>Claim C7\<close>

text \<open>
  C7, as stated, says that every order-type method accepts its arguments without raising.
  \<open>market_buy\<close> asks the terminal for the current price and raises \<open>ValueError\<close> when there
  is no tick for the symbol, whatever the volume.
\<close>

theorem market_buy_raises_without_tick:
  "fst (invoke example_constants silent_env 0 (MarketBuy 3) fresh_store) = Inl ValueError \<and>
   fst (market_buy example_constants silent_env 0 3 fresh_store) = Inl ValueError"
  by (simp add: market_buy_def get_ask_price_def silent_env_def fresh_store_def
        init_builder_def Let_def)

text \<open>
  C7 (amended): the builder has no validation of its parameters. The six \<open>with_*\<close> methods
  and the four pending-order methods accept every argument value, record it unchanged and
  never raise. \<open>market_buy\<close> and \<open>market_sell\<close> record the volume unchanged and raise
  \<open>ValueError\<close> exactly when the terminal has no tick for the builder's symbol, never because
  of an argument value. Once any order-type method has been called, even one that raised,
  \<open>build\<close> does not raise, and no later chaining call changes that.
\<close>

theorem builder_accepts_arguments:
  "(\<not> is_market_call call \<longrightarrow> fst (invoke K env self call h) = Inr self) \<and>
   (is_market_call call \<longrightarrow>
      fst (invoke K env self call h) =
        (if symbol_info_tick env (b_symbol (h self)) = None then Inl ValueError else Inr self)) \<and>
   (is_order_call call \<longrightarrow>
      b_volume (snd (invoke K env self call h) self) = call_volume call \<and>
      (\<exists>d. build K env self (snd (invoke K env self call h)) = Inr d)) \<and>
   b_price (snd (invoke K env self (LimitBuy volume price) h) self) = price \<and>
   b_price (snd (invoke K env self (LimitSell volume price) h) self) = price \<and>
   b_price (snd (invoke K env self (StopBuy volume price) h) self) = price \<and>
   b_price (snd (invoke K env self (StopSell volume price) h) self) = price \<and>
   b_sl (snd (invoke K env self (WithSl sl) h) self) = sl \<and>
   b_tp (snd (invoke K env self (WithTp tp) h) self) = tp \<and>
   b_sl (snd (invoke K env self (WithSlTp sl tp) h) self) = sl \<and>
   b_tp (snd (invoke K env self (WithSlTp sl tp) h) self) = tp \<and>
   b_deviation (snd (invoke K env self (WithDeviation deviation) h) self) = deviation \<and>
   b_magic (snd (invoke K env self (WithMagic magic) h) self) = magic \<and>
   b_comment (snd (invoke K env self (WithComment comment) h) self) = comment \<and>
   (b_action (h self) \<noteq> None \<and> b_order_type (h self) \<noteq> None \<longrightarrow>
      (\<exists>d. build K env self h = Inr d) \<and>
      b_action (snd (invoke K env self call h) self) \<noteq> None \<and>
      b_order_type (snd (invoke K env self call h) self) \<noteq> None)"
proof -
  have c1: "\<not> is_market_call call \<longrightarrow> fst (invoke K env self call h) = Inr self"
    using invoke_total by blast
  have c2: "is_market_call call \<longrightarrow>
      fst (invoke K env self call h) =
        (if symbol_info_tick env (b_symbol (h self)) = None then Inl ValueError else Inr self)"
    using invoke_market by blast
  have c3: "is_order_call call \<longrightarrow>
      b_volume (snd (invoke K env self call h) self) = call_volume call \<and>
      (\<exists>d. build K env self (snd (invoke K env self call h)) = Inr d)"
    using invoke_sets_order [of call K env self h]
          build_returns [of "snd (invoke K env self call h)" self K env]
    by blast
  have c4: "b_price (snd (invoke K env self (LimitBuy volume price) h) self) = price \<and>
   b_price (snd (invoke K env self (LimitSell volume price) h) self) = price \<and>
   b_price (snd (invoke K env self (StopBuy volume price) h) self) = price \<and>
   b_price (snd (invoke K env self (StopSell volume price) h) self) = price"
    by (simp add: builder_method_defs)
  have c5: "b_sl (snd (invoke K env self (WithSl sl) h) self) = sl \<and>
   b_tp (snd (invoke K env self (WithTp tp) h) self) = tp \<and>
   b_sl (snd (invoke K env self (WithSlTp sl tp) h) self) = sl \<and>
   b_tp (snd (invoke K env self (WithSlTp sl tp) h) self) = tp \<and>
   b_deviation (snd (invoke K env self (WithDeviation deviation) h) self) = deviation \<and>
   b_magic (snd (invoke K env self (WithMagic magic) h) self) = magic \<and>
   b_comment (snd (invoke K env self (WithComment comment) h) self) = comment"
    by (simp add: builder_method_defs)
  have c6: "b_action (h self) \<noteq> None \<and> b_order_type (h self) \<noteq> None \<longrightarrow>
      (\<exists>d. build K env self h = Inr d) \<and>
      b_action (snd (invoke K env self call h) self) \<noteq> None \<and>
      b_order_type (snd (invoke K env self call h) self) \<noteq> None"
    using build_returns [of h self K env] invoke_keeps_order [of h self K env call]
    by blast
  show ?thesis using c1 c2 c3 c4 c5 c6 by (intro conjI) blast+
qed

theorem builder_accepts_arguments_witness:
  "is_market_call (MarketBuy 3) \<and> is_order_call (MarketBuy 3) \<and>
   symbol_info_tick silent_env (b_symbol (fresh_store 0)) = None \<and>
   fst (invoke example_constants silent_env 0 (MarketBuy 3) fresh_store) = Inl ValueError \<and>
   b_volume (snd (invoke example_constants silent_env 0 (MarketBuy 3) fresh_store) 0) = 3 \<and>
   (\<exists>d. build example_constants silent_env 0
          (snd (invoke example_constants silent_env 0 (MarketBuy 3) fresh_store)) = Inr d) \<and>
   \<not> is_market_call (LimitBuy 3 (- 1)) \<and>
   fst (invoke example_constants silent_env 0 (LimitBuy 3 (- 1)) fresh_store) = Inr 0"
proof -
  have m: "is_market_call (MarketBuy 3)" and oc: "is_order_call (MarketBuy 3)" by simp_all
  have nt: "symbol_info_tick silent_env (b_symbol (fresh_store 0)) = None"
    by (simp add: silent_env_def)
  have nm: "\<not> is_market_call (LimitBuy 3 (- 1))" by simp
  note inst = builder_accepts_arguments [of "MarketBuy 3" example_constants silent_env 0 fresh_store]
  have r1: "fst (invoke example_constants silent_env 0 (MarketBuy 3) fresh_store) = Inl ValueError"
    using inst m nt by simp
  have r2: "b_volume (snd (invoke example_constants silent_env 0 (MarketBuy 3) fresh_store) 0) = 3 \<and>
      (\<exists>d. build example_constants silent_env 0
             (snd (invoke example_constants silent_env 0 (MarketBuy 3) fresh_store)) = Inr d)"
    using inst oc by simp
  have r3: "fst (invoke example_constants silent_env 0 (LimitBuy 3 (- 1)) fresh_store) = Inr 0"
    using builder_accepts_arguments
            [of "LimitBuy 3 (- 1)" example_constants silent_env 0 fresh_store] nm
    by blast
  show ?thesis using m oc nt nm r1 r2 r3 by blast
qed

end
